theory Spec2Isabelle
  imports Main "HOL-Library.AList" "HOL-Library.Multiset" "HOL-Library.Sublist" "HOL-Library.Word"
begin

section \<open>The sequence protocol\<close>

text \<open>
  The package works on Go's \<^verbatim>\<open>iter.Seq[V]\<close>, which is \<^verbatim>\<open>func(yield func(V) bool)\<close>: a
  sequence is a procedure that is driven with a visitor, and the visitor answers \<^verbatim>\<open>true\<close>
  to go on and \<^verbatim>\<open>false\<close> to stop. Both are procedures with effects, so both take the
  state of the run and return the new one:
  \<^item> a visitor returns its answer and the new state;
  \<^item> a sequence, driven with a visitor from a state, returns the state it ends in.

  A loop \<^verbatim>\<open>for v := range s { body }\<close> is the call \<^verbatim>\<open>s(body)\<close>, where the body answers
  \<^verbatim>\<open>true\<close> when it runs to its end (or reaches \<^verbatim>\<open>continue\<close>) and \<^verbatim>\<open>false\<close> when it leaves the
  loop (\<^verbatim>\<open>break\<close>, \<^verbatim>\<open>return\<close>). In every function of \<^verbatim>\<open>seqencer.go\<close> that returns from inside
  such a loop, nothing follows the loop but the function's own return.
\<close>

type_synonym ('a, 's) visitor = "'a \<Rightarrow> 's \<Rightarrow> bool \<times> 's"
type_synonym ('a, 's) seq = "('a, 's) visitor \<Rightarrow> 's \<Rightarrow> 's"

text \<open>
  The state of a run:
  \<^item> \<open>pulled i\<close>: how many elements source number \<open>i\<close> has handed to its consumer so far
    (what the claims call consuming an element of the source);
  \<^item> \<open>counts\<close>, \<open>seen\<close>: the store of the maps that \<^verbatim>\<open>DuplicateSeq\<close> (\<^verbatim>\<open>map[V]int\<close>) and
    \<^verbatim>\<open>DeduplicationSeq\<close> (\<^verbatim>\<open>map[V]bool\<close>) allocate, by address; a closure holds the address
    of its map, as the Go closure holds the reference;
  \<^item> \<open>fresh\<close>: the next unused address;
  \<^item> \<open>user\<close>: the local variables of the loops that are running, innermost first.

  Go's \<^verbatim>\<open>int\<close> has 64 bits. A count stored by \<^verbatim>\<open>DuplicateSeq\<close> is at most the number of
  elements that were driven through the instance, so the unbounded \<open>int\<close> of the model and
  the machine integer agree on every run of fewer than \<open>2 ^ 63\<close> elements.
\<close>

record ('k, 'u) world =
  pulled :: "nat \<Rightarrow> nat"
  counts :: "nat \<Rightarrow> ('k \<rightharpoonup> int)"
  seen :: "nat \<Rightarrow> ('k \<rightharpoonup> bool)"
  fresh :: nat
  user :: 'u

definition pull :: "nat \<Rightarrow> nat \<Rightarrow> ('k, 'u) world \<Rightarrow> ('k, 'u) world" where
  "pull i n w = w\<lparr>pulled := (pulled w)(i := pulled w i + n)\<rparr>"

text \<open>Entering a function (or a loop with variables of its own) pushes its variables,
  leaving it pops them; \<open>var\<close> reads them and \<open>upd_var\<close> assigns to them.\<close>

definition push :: "'l \<Rightarrow> ('k, 'u) world \<Rightarrow> ('k, 'l \<times> 'u) world" where
  "push l w = \<lparr>pulled = pulled w, counts = counts w, seen = seen w, fresh = fresh w,
               user = (l, user w)\<rparr>"

definition pop :: "('k, 'l \<times> 'u) world \<Rightarrow> ('k, 'u) world" where
  "pop w = \<lparr>pulled = pulled w, counts = counts w, seen = seen w, fresh = fresh w,
            user = snd (user w)\<rparr>"

definition var :: "('k, 'l \<times> 'u) world \<Rightarrow> 'l" where
  "var w = fst (user w)"

definition upd_var :: "('l \<Rightarrow> 'l) \<Rightarrow> ('k, 'l \<times> 'u) world \<Rightarrow> ('k, 'l \<times> 'u) world" where
  "upd_var f w = w\<lparr>user := (f (fst (user w)), snd (user w))\<rparr>"

subsection \<open>Sources and consumers of the standard library\<close>

text \<open>
  \<^verbatim>\<open>slices.Values(vs)\<close>, the restartable source of the tests and of \<^verbatim>\<open>slices.go\<close>:
  \<^verbatim>\<open>for _, v := range vs { if !yield(v) { return } }\<close>. Each call walks the slice from its
  start. The model gives the source a number \<open>i\<close> and lets it record in \<open>pulled i\<close> every
  element it hands out, so that the consumption of the source can be observed.
\<close>

fun slices_Values :: "nat \<Rightarrow> 'a list \<Rightarrow> ('a, ('k, 'u) world) seq" where
  "slices_Values i [] yield w = w"
| "slices_Values i (v # vs) yield w =
     (case yield v (pull i 1 w) of
        (ok, w') \<Rightarrow> if \<not> ok then w' else slices_Values i vs yield w')"

text \<open>
  The visitor of the tests (\<^verbatim>\<open>count++; return false\<close>) and the one of \<^verbatim>\<open>slices.Collect\<close>
  (\<^verbatim>\<open>append\<close>, go on) are instances of \<open>probe\<close>: it appends the value it is called with to
  a log, its only variable, and answers \<open>answer v\<close>. The length of the log is the number
  of times the visitor was invoked. \<open>observe\<close> drives a sequence with it from an empty log
  and returns the log and the state the drive ends in.
\<close>

definition probe :: "('b \<Rightarrow> bool) \<Rightarrow> ('b, ('k, 'b list \<times> 'u) world) visitor" where
  "probe answer v w = (answer v, upd_var (\<lambda>log. log @ [v]) w)"

definition observe ::
  "('b \<Rightarrow> bool) \<Rightarrow> ('b, ('k, 'b list \<times> 'u) world) seq \<Rightarrow> ('k, 'u) world
     \<Rightarrow> 'b list \<times> ('k, 'u) world" where
  "observe answer q w = (let w' = q (probe answer) (push [] w) in (var w', pop w'))"

definition slices_Collect ::
  "('b, ('k, 'b list \<times> 'u) world) seq \<Rightarrow> ('k, 'u) world \<Rightarrow> 'b list \<times> ('k, 'u) world" where
  "slices_Collect q w = observe (\<lambda>_. True) q w"

section \<open>The combinators of seqencer.go\<close>

text \<open>
  A combinator is a Go function: calling it is a step of the run that returns the new
  sequence (a closure) and the state after the call. Where the Go body is only
  \<^verbatim>\<open>return func(yield ...) {...}\<close> that state is the one the call started in. In a
  closure, \<^verbatim>\<open>if !yield(v) { return }\<close> at the end of the loop body makes the body answer
  what \<open>yield\<close> answered.
\<close>

definition FilterSeq :: "('a, 's) seq \<Rightarrow> ('a \<Rightarrow> bool) \<Rightarrow> 'w \<Rightarrow> ('a, 's) seq \<times> 'w" where
  "FilterSeq s fn w0 =
     (\<lambda>yield. s (\<lambda>v w. if fn v then yield v w else (True, w)), w0)"

text \<open>\<^verbatim>\<open>RemoveSeq\<close> drives \<open>g\<close> once for every element of \<open>s\<close>, with the variable \<open>found\<close>
  of that round; \<^verbatim>\<open>break\<close> makes the inner body answer \<open>False\<close>.\<close>

definition RemoveSeq ::
  "('a, ('k, 'u) world) seq \<Rightarrow> ('a, ('k, bool \<times> 'u) world) seq \<Rightarrow> 'w
     \<Rightarrow> ('a, ('k, 'u) world) seq \<times> 'w" where
  "RemoveSeq s g w0 =
     (\<lambda>yield. s (\<lambda>v1 w.
        let w1 = g (\<lambda>v2 w. if v1 = v2 then (False, upd_var (\<lambda>found. True) w) else (True, w))
                   (push False w);
            found = var w1;
            w2 = pop w1
        in if \<not> found then yield v1 w2 else (True, w2)), w0)"

text \<open>
  The textual projection of \<^verbatim>\<open>PatternSeq\<close> and \<^verbatim>\<open>StringPatternSeq\<close> is a type switch on the
  dynamic type of the element: a \<^verbatim>\<open>string\<close> is taken as it is, a \<^verbatim>\<open>fmt.Stringer\<close> gives
  \<^verbatim>\<open>String()\<close>, anything else is formatted with \<^verbatim>\<open>fmt.Sprintf("%v", o)\<close>. What the Go runtime
  and \<^verbatim>\<open>fmt\<close> know about the element type is a parameter: \<open>as_string\<close> and \<open>as_stringer\<close>
  say whether the case applies and with which text. A compiled \<^verbatim>\<open>*regexp.Regexp\<close> is
  taken as its \<^verbatim>\<open>MatchString\<close>.
\<close>

record 'a textual =
  as_string :: "'a \<Rightarrow> string option"
  as_stringer :: "'a \<Rightarrow> string option"
  sprintf_v :: "'a \<Rightarrow> string"

definition text_of :: "'a textual \<Rightarrow> 'a \<Rightarrow> string" where
  "text_of T v =
     (case as_string T v of
        Some txt \<Rightarrow> txt
      | None \<Rightarrow> (case as_stringer T v of Some txt \<Rightarrow> txt | None \<Rightarrow> sprintf_v T v))"

definition PatternSeq ::
  "'a textual \<Rightarrow> ('a, 's) seq \<Rightarrow> (string \<Rightarrow> bool) \<Rightarrow> 'w \<Rightarrow> ('a, 's) seq \<times> 'w" where
  "PatternSeq T s pattern w0 =
     (\<lambda>yield. s (\<lambda>v w.
        let txt = text_of T v
        in if pattern txt then yield v w else (True, w)), w0)"

definition StringPatternSeq ::
  "'a textual \<Rightarrow> ('a, 's) seq \<Rightarrow> string \<Rightarrow> 'w \<Rightarrow> ('a, 's) seq \<times> 'w" where
  "StringPatternSeq T s pattern w0 =
     (\<lambda>yield. s (\<lambda>v w.
        let txt = text_of T v
        in if txt = pattern then yield v w else (True, w)), w0)"

text \<open>\<^verbatim>\<open>DuplicateSeq\<close> and \<^verbatim>\<open>DeduplicationSeq\<close> make their map before they return the
  closure: the call allocates it at the next free address, and every drive of the
  closure works on the map at that address.\<close>

definition DuplicateSeq ::
  "('k, ('k, 'u) world) seq \<Rightarrow> ('k, 'v) world
     \<Rightarrow> ('k, ('k, 'u) world) seq \<times> ('k, 'v) world" where
  "DuplicateSeq s w0 =
     (let m = fresh w0
      in (\<lambda>yield. s (\<lambda>v w.
            case counts w m v of
              Some cnt \<Rightarrow>
                (let w' = w\<lparr>counts := (counts w)(m := (counts w m)(v \<mapsto> cnt + 1))\<rparr>
                 in if cnt = 1 then yield v w' else (True, w'))
            | None \<Rightarrow> (True, w\<lparr>counts := (counts w)(m := (counts w m)(v \<mapsto> 1))\<rparr>)),
          w0\<lparr>fresh := Suc m, counts := (counts w0)(m := Map.empty)\<rparr>))"

definition DeduplicationSeq ::
  "('k, ('k, 'u) world) seq \<Rightarrow> ('k, 'v) world
     \<Rightarrow> ('k, ('k, 'u) world) seq \<times> ('k, 'v) world" where
  "DeduplicationSeq s w0 =
     (let m = fresh w0
      in (\<lambda>yield. s (\<lambda>v w.
            case seen w m v of
              Some _ \<Rightarrow> (True, w)
            | None \<Rightarrow> yield v (w\<lparr>seen := (seen w)(m := (seen w m)(v \<mapsto> True))\<rparr>)),
          w0\<lparr>fresh := Suc m, seen := (seen w0)(m := Map.empty)\<rparr>))"

text \<open>\<^verbatim>\<open>HashSeq\<close> resets its \<^verbatim>\<open>maphash.Hash\<close> before each element, so the digest of an
  element depends on the element and on the seed of the instance only; \<open>sum64\<close> is that
  function. The visitor of an \<^verbatim>\<open>iter.Seq2\<close> takes the pair.\<close>

definition HashSeq ::
  "('e \<Rightarrow> 64 word) \<Rightarrow> ('e, 's) seq \<Rightarrow> 'w \<Rightarrow> (64 word \<times> 'e, 's) seq \<times> 'w" where
  "HashSeq sum64 s w0 = (\<lambda>yield. s (\<lambda>v w. yield (sum64 v, v) w), w0)"

text \<open>
  \<^verbatim>\<open>GroupSeq\<close> runs its loop over \<open>s\<close> in the call itself, with the map \<open>groups\<close> as the
  variable of the loop, and returns a closure over the finished map. The map is an
  association list with one entry for each key. Go leaves the order in which \<^verbatim>\<open>range\<close>
  visits a map open: \<open>order\<close> is the order the runtime picks for the entries.
\<close>

fun range_values :: "('h \<times> 'v) list \<Rightarrow> ('v, 's) seq" where
  "range_values [] yield w = w"
| "range_values ((h, v) # es) yield w =
     (case yield v w of
        (ok, w') \<Rightarrow> if \<not> ok then w' else range_values es yield w')"

definition GroupSeq ::
  "(('h \<times> 'e list) list \<Rightarrow> ('h \<times> 'e list) list)
     \<Rightarrow> ('e, ('k, ('h \<times> 'e list) list \<times> 'u) world) seq \<Rightarrow> ('e \<Rightarrow> 'h) \<Rightarrow> ('k, 'u) world
     \<Rightarrow> ('e list, 's) seq \<times> ('k, 'u) world" where
  "GroupSeq order s fn w0 =
     (let w1 = s (\<lambda>v w. (True, upd_var (\<lambda>groups.
                    let h = fn v;
                        g = (case map_of groups h of Some g \<Rightarrow> g | None \<Rightarrow> []);
                        g = g @ [v]
                    in AList.update h g groups) w))
                 (push [] w0);
          groups = var w1
      in (\<lambda>yield. range_values (order groups) yield, pop w1))"

definition ReplaceFuncSeq :: "('a, 's) seq \<Rightarrow> ('a \<Rightarrow> 'a) \<Rightarrow> 'w \<Rightarrow> ('a, 's) seq \<times> 'w" where
  "ReplaceFuncSeq s fn w0 = (\<lambda>yield. s (\<lambda>v w. yield (fn v) w), w0)"

definition ReplaceSeq :: "('a, 's) seq \<Rightarrow> ('a \<rightharpoonup> 'a) \<Rightarrow> 'w \<Rightarrow> ('a, 's) seq \<times> 'w" where
  "ReplaceSeq s g w0 =
     (\<lambda>yield. s (\<lambda>v w. case g v of Some r \<Rightarrow> yield r w | None \<Rightarrow> yield v w), w0)"

definition ConvertSeq :: "('a, 's) seq \<Rightarrow> ('a \<Rightarrow> 'b) \<Rightarrow> 'w \<Rightarrow> ('b, 's) seq \<times> 'w" where
  "ConvertSeq s fn w0 = (\<lambda>yield. s (\<lambda>v w. yield (fn v) w), w0)"

text \<open>\<^verbatim>\<open>any(v)\<close> boxes a value in the empty interface.\<close>

datatype 'a any = Any 'a

definition AnySeq :: "('a, 's) seq \<Rightarrow> 'w \<Rightarrow> ('a any, 's) seq \<times> 'w" where
  "AnySeq s w0 = (\<lambda>yield. s (\<lambda>v w. yield (Any v) w), w0)"

section \<open>The terminal operators\<close>

text \<open>A terminal operator drives its source in the call, with its own variables pushed
  for the loop, and returns its result with the state after the call.\<close>

definition CountSeq :: "('a, ('k, int \<times> 'u) world) seq \<Rightarrow> ('k, 'u) world \<Rightarrow> int \<times> ('k, 'u) world" where
  "CountSeq s w0 =
     (let w1 = s (\<lambda>v w. (True, upd_var (\<lambda>result. result + 1) w)) (push 0 w0)
      in (var w1, pop w1))"

text \<open>
  \<^verbatim>\<open>SumFuncSeq\<close>: \<open>fn\<close> returns a value and an error, \<open>None\<close> for \<^verbatim>\<open>nil\<close>. The variables of
  the loop are \<open>result\<close> and the pair the function returns from inside the loop, if it
  does. \<^verbatim>\<open>*new(T)\<close> is the zero value of \<open>T\<close>, and so is the initial \<open>result\<close>.
\<close>

definition SumFuncSeq ::
  "('a, ('k, ('t \<times> ('t \<times> 'e option) option) \<times> 'u) world) seq \<Rightarrow> ('a \<Rightarrow> 't \<times> 'e option)
     \<Rightarrow> ('k, 'u) world \<Rightarrow> ('t::{zero,plus} \<times> 'e option) \<times> ('k, 'u) world" where
  "SumFuncSeq s fn w0 =
     (let w1 = s (\<lambda>v w.
                    case fn v of
                      (val, Some err) \<Rightarrow>
                        (False, upd_var (\<lambda>(result, ret). (result, Some (0, Some err))) w)
                    | (val, None) \<Rightarrow>
                        (True, upd_var (\<lambda>(result, ret). (result + val, ret)) w))
                 (push (0, None) w0)
      in (case var w1 of
            (result, Some ret) \<Rightarrow> ret
          | (result, None) \<Rightarrow> (result, None),
          pop w1))"

text \<open>
  \<^verbatim>\<open>SumSeq\<close>: \<^verbatim>\<open>slices.Sort\<close> puts the items in ascending order. On a linear order two equal
  items are the same value, so the sorted slice does not depend on the sorting
  algorithm, and \<open>sort\<close> gives it. (Floating point is not a linear order and is left
  out.) The sum is accumulated from the left, starting at the zero value.
\<close>

definition SumSeq ::
  "('a, ('k, 'a list \<times> 'u) world) seq \<Rightarrow> ('k, 'u) world
     \<Rightarrow> ('a::{linorder,zero,plus}) \<times> ('k, 'u) world" where
  "SumSeq s w0 =
     (case slices_Collect s w0 of
        (items, w1) \<Rightarrow> (foldl (+) 0 (sort items), w1))"

definition IsEmptySeq ::
  "('a, ('k, bool option \<times> 'u) world) seq \<Rightarrow> ('k, 'u) world \<Rightarrow> bool \<times> ('k, 'u) world" where
  "IsEmptySeq s w0 =
     (let w1 = s (\<lambda>v w. (False, upd_var (\<lambda>ret. Some False) w)) (push None w0)
      in (case var w1 of Some ret \<Rightarrow> ret | None \<Rightarrow> True, pop w1))"

section \<open>Drives and what they observe\<close>

text \<open>The state before anything has run: nothing pulled, no map allocated.\<close>

definition world0 :: "('k, unit) world" where
  "world0 = \<lparr>pulled = (\<lambda>i. 0), counts = (\<lambda>m. Map.empty), seen = (\<lambda>m. Map.empty), fresh = 0,
             user = ()\<rparr>"

text \<open>
  \<open>first_drive answer mk w0\<close>: call the combinator (\<open>mk\<close> is the combinator with its
  source and configuration), then drive the sequence it returns once, with a visitor
  that answers \<open>answer\<close>. \<open>drive_twice\<close> collects the sequence of one call two times in
  a row; \<open>two_instances\<close> calls the combinator twice and then collects both sequences.
\<close>

definition first_drive ::
  "('b \<Rightarrow> bool) \<Rightarrow> (('k, 'u) world \<Rightarrow> ('b, ('k, 'b list \<times> 'u) world) seq \<times> ('k, 'u) world)
     \<Rightarrow> ('k, 'u) world \<Rightarrow> 'b list \<times> ('k, 'u) world" where
  "first_drive answer mk w0 = (case mk w0 of (q, w1) \<Rightarrow> observe answer q w1)"

definition drive_twice ::
  "(('k, 'u) world \<Rightarrow> ('b, ('k, 'b list \<times> 'u) world) seq \<times> ('k, 'u) world)
     \<Rightarrow> ('k, 'u) world \<Rightarrow> 'b list \<times> 'b list" where
  "drive_twice mk w0 =
     (case mk w0 of (q, w1) \<Rightarrow>
        case slices_Collect q w1 of (out1, w2) \<Rightarrow>
          case slices_Collect q w2 of (out2, w3) \<Rightarrow> (out1, out2))"

definition two_instances ::
  "(('k, 'u) world \<Rightarrow> ('b, ('k, 'b list \<times> 'u) world) seq \<times> ('k, 'u) world)
     \<Rightarrow> ('k, 'u) world \<Rightarrow> 'b list \<times> 'b list" where
  "two_instances mk w0 =
     (case mk w0 of (q1, w1) \<Rightarrow>
        case mk w1 of (q2, w2) \<Rightarrow>
          case slices_Collect q1 w2 of (out1, w3) \<Rightarrow>
            case slices_Collect q2 w3 of (out2, w4) \<Rightarrow> (out1, out2))"

text \<open>\<open>piped mk1 mk2\<close>: call \<open>mk1\<close>, then call \<open>mk2\<close> on the sequence it returned.\<close>

definition piped :: "('w \<Rightarrow> 'q \<times> 'w) \<Rightarrow> ('q \<Rightarrow> 'w \<Rightarrow> 'r \<times> 'w) \<Rightarrow> 'w \<Rightarrow> 'r \<times> 'w" where
  "piped mk1 mk2 w0 = (case mk1 w0 of (q, w1) \<Rightarrow> mk2 q w1)"

text \<open>
  Positions of a source \<open>xs\<close>, in ascending order:
  \<^item> \<open>positions p xs\<close>: where the element satisfies \<open>p\<close>;
  \<^item> \<open>first_sightings xs\<close>: where the element has not occurred before;
  \<^item> \<open>second_sightings xs\<close>: where the element has occurred exactly once before.

  \<open>consumed_until js n\<close> is the number of elements that a source of \<open>n\<close> elements has
  handed out when it is stopped at the first of the positions \<open>js\<close>: the element at that
  position is the last one, and without such a position the source is exhausted.
\<close>

definition positions :: "('a \<Rightarrow> bool) \<Rightarrow> 'a list \<Rightarrow> nat list" where
  "positions p xs = filter (\<lambda>j. p (xs ! j)) [0..<length xs]"

definition first_sightings :: "'a list \<Rightarrow> nat list" where
  "first_sightings xs = filter (\<lambda>j. xs ! j \<notin> set (take j xs)) [0..<length xs]"

definition second_sightings :: "'a list \<Rightarrow> nat list" where
  "second_sightings xs = filter (\<lambda>j. count_list (take j xs) (xs ! j) = 1) [0..<length xs]"

definition consumed_until :: "nat list \<Rightarrow> nat \<Rightarrow> nat" where
  "consumed_until js n = (case js of [] \<Rightarrow> n | j # _ \<Rightarrow> Suc j)"

subsection \<open>Vocabulary of the proofs\<close>

text \<open>
  A loop that decides from the elements before (\<open>pre\<close>) whether it yields the current
  one: \<open>emitted\<close> is what it yields over \<open>xs\<close>, \<open>stop_at\<close> the number of elements it
  takes until it yields for the first time.
\<close>

fun emitted :: "('a list \<Rightarrow> 'a \<Rightarrow> bool) \<Rightarrow> 'a list \<Rightarrow> 'a list \<Rightarrow> 'a list" where
  "emitted P pre [] = []"
| "emitted P pre (x # xs) =
     (if P pre x then x # emitted P (pre @ [x]) xs else emitted P (pre @ [x]) xs)"

fun stop_at :: "('a list \<Rightarrow> 'a \<Rightarrow> bool) \<Rightarrow> 'a list \<Rightarrow> 'a list \<Rightarrow> nat" where
  "stop_at P pre [] = 0"
| "stop_at P pre (x # xs) = (if P pre x then 1 else Suc (stop_at P (pre @ [x]) xs))"

text \<open>The maps of \<^verbatim>\<open>DeduplicationSeq\<close> and \<^verbatim>\<open>DuplicateSeq\<close> after the elements \<open>pre\<close>
  have gone through a new instance, and the update of one map in the store.\<close>

definition seen_map :: "'a list \<Rightarrow> ('a \<rightharpoonup> bool)" where
  "seen_map pre = (\<lambda>v. if v \<in> set pre then Some True else None)"

definition count_map :: "'a list \<Rightarrow> ('a \<rightharpoonup> int)" where
  "count_map pre = (\<lambda>v. if v \<in> set pre then Some (int (count_list pre v)) else None)"

definition set_seen :: "nat \<Rightarrow> ('k \<rightharpoonup> bool) \<Rightarrow> ('k, 'u) world \<Rightarrow> ('k, 'u) world" where
  "set_seen m c w = w\<lparr>seen := (seen w)(m := c)\<rparr>"

definition set_counts :: "nat \<Rightarrow> ('k \<rightharpoonup> int) \<Rightarrow> ('k, 'u) world \<Rightarrow> ('k, 'u) world" where
  "set_counts m c w = w\<lparr>counts := (counts w)(m := c)\<rparr>"

text \<open>The loop bodies of the two closures, for the map at address \<open>m\<close>.\<close>

definition dedup_body ::
  "nat \<Rightarrow> ('k, ('k, 'u) world) visitor \<Rightarrow> ('k, ('k, 'u) world) visitor" where
  "dedup_body m yield =
     (\<lambda>v w. case seen w m v of
               Some _ \<Rightarrow> (True, w)
             | None \<Rightarrow> yield v (w\<lparr>seen := (seen w)(m := (seen w m)(v \<mapsto> True))\<rparr>))"

definition dup_body ::
  "nat \<Rightarrow> ('k, ('k, 'u) world) visitor \<Rightarrow> ('k, ('k, 'u) world) visitor" where
  "dup_body m yield =
     (\<lambda>v w. case counts w m v of
               Some cnt \<Rightarrow>
                 (let w' = w\<lparr>counts := (counts w)(m := (counts w m)(v \<mapsto> cnt + 1))\<rparr>
                  in if cnt = 1 then yield v w' else (True, w'))
             | None \<Rightarrow> (True, w\<lparr>counts := (counts w)(m := (counts w m)(v \<mapsto> 1))\<rparr>))"

text \<open>The update of \<open>groups\<close> in the loop of \<^verbatim>\<open>GroupSeq\<close>, and the map after the loop.\<close>

definition group_add :: "('e \<Rightarrow> 'h) \<Rightarrow> 'e \<Rightarrow> ('h \<times> 'e list) list \<Rightarrow> ('h \<times> 'e list) list" where
  "group_add fn v groups =
     (let h = fn v;
          g = (case map_of groups h of Some g \<Rightarrow> g | None \<Rightarrow> []);
          g = g @ [v]
      in AList.update h g groups)"

definition groups_of :: "('e \<Rightarrow> 'h) \<Rightarrow> 'e list \<Rightarrow> ('h \<times> 'e list) list" where
  "groups_of fn xs = foldl (\<lambda>groups v. group_add fn v groups) [] xs"

text \<open>What \<^verbatim>\<open>ReplaceSeq\<close> yields for an element.\<close>

definition replaced :: "('a \<rightharpoonup> 'a) \<Rightarrow> 'a \<Rightarrow> 'a" where
  "replaced g v = (case g v of Some r \<Rightarrow> r | None \<Rightarrow> v)"

text \<open>What the rounds of \<^verbatim>\<open>RemoveSeq\<close> over \<open>xs\<close> pull from the exclude slice \<open>ys\<close>: each
  round walks \<open>ys\<close> until it finds the element.\<close>

definition remove_cost :: "'a list \<Rightarrow> 'a list \<Rightarrow> nat" where
  "remove_cost ys xs = sum_list (map (\<lambda>x. stop_at (\<lambda>pre. (=) x) [] ys) xs)"

text \<open>The loop body of \<^verbatim>\<open>SumFuncSeq\<close>.\<close>

definition sum_body ::
  "('a \<Rightarrow> 't \<times> 'e option)
     \<Rightarrow> ('a, ('k, ('t::{zero,plus} \<times> ('t \<times> 'e option) option) \<times> 'u) world) visitor" where
  "sum_body fn =
     (\<lambda>v w. case fn v of
               (val, Some err) \<Rightarrow>
                 (False, upd_var (\<lambda>(result, ret). (result, Some (0, Some err))) w)
             | (val, None) \<Rightarrow>
                 (True, upd_var (\<lambda>(result, ret). (result + val, ret)) w))"

section \<open>The state of a run: algebra\<close>

lemma var_push [simp]: "var (push l w) = l"
  by (simp add: var_def push_def)

lemma pop_push [simp]: "pop (push l w) = w"
  by (simp add: pop_def push_def)

lemma upd_var_push [simp]: "upd_var f (push l w) = push (f l) w"
  by (simp add: upd_var_def push_def)

lemma pull_push [simp]: "pull i n (push l w) = push l (pull i n w)"
  by (simp add: pull_def push_def)

lemma pull_pull [simp]: "pull i n (pull i m w) = pull i (m + n) w"
  by (simp add: pull_def add.assoc)

lemma pull_0 [simp]: "pull i 0 w = w"
  by (simp add: pull_def)

lemma pulled_pull [simp]: "pulled (pull i n w) = (pulled w)(i := pulled w i + n)"
  by (simp add: pull_def)

lemma pull_pull_pull [simp]: "pull i n (pull j m (pull i k w)) = pull j m (pull i (k + n) w)"
  by (auto simp add: pull_def fun_eq_iff)

lemma counts_push [simp]: "counts (push l w) = counts w"
  by (simp add: push_def)

lemma seen_push [simp]: "seen (push l w) = seen w"
  by (simp add: push_def)

lemma counts_pull [simp]: "counts (pull i n w) = counts w"
  by (simp add: pull_def)

lemma seen_pull [simp]: "seen (pull i n w) = seen w"
  by (simp add: pull_def)

lemma seen_set_seen [simp]: "seen (set_seen m c w) = (seen w)(m := c)"
  by (simp add: set_seen_def)

lemma pulled_set_seen [simp]: "pulled (set_seen m c w) = pulled w"
  by (simp add: set_seen_def)

lemma set_seen_twice [simp]: "set_seen m c (set_seen m c' w) = set_seen m c w"
  by (simp add: set_seen_def)

lemma set_seen_thrice [simp]:
  "set_seen m c (set_seen m' d (set_seen m c' w)) = set_seen m c (set_seen m' d w)"
  by (auto simp add: set_seen_def fun_eq_iff)

lemma set_seen_pull [simp]: "set_seen m c (pull i n w) = pull i n (set_seen m c w)"
  by (simp add: set_seen_def pull_def)

lemma set_seen_push [simp]: "set_seen m c (push l w) = push l (set_seen m c w)"
  by (simp add: set_seen_def push_def)

lemma set_seen_same: "seen w m = c \<Longrightarrow> set_seen m c w = w"
  by (auto simp add: set_seen_def)

lemma counts_set_counts [simp]: "counts (set_counts m c w) = (counts w)(m := c)"
  by (simp add: set_counts_def)

lemma pulled_set_counts [simp]: "pulled (set_counts m c w) = pulled w"
  by (simp add: set_counts_def)

lemma set_counts_twice [simp]: "set_counts m c (set_counts m c' w) = set_counts m c w"
  by (simp add: set_counts_def)

lemma set_counts_thrice [simp]:
  "set_counts m c (set_counts m' d (set_counts m c' w)) = set_counts m c (set_counts m' d w)"
  by (auto simp add: set_counts_def fun_eq_iff)

lemma set_counts_pull [simp]: "set_counts m c (pull i n w) = pull i n (set_counts m c w)"
  by (simp add: set_counts_def pull_def)

lemma set_counts_push [simp]: "set_counts m c (push l w) = push l (set_counts m c w)"
  by (simp add: set_counts_def push_def)

lemma set_counts_same: "counts w m = c \<Longrightarrow> set_counts m c w = w"
  by (auto simp add: set_counts_def)

section \<open>Positions\<close>

lemma upt_0_Suc: "[0..<Suc n] = 0 # map Suc [0..<n]"
  by (simp add: upt_conv_Cons map_Suc_upt del: upt_Suc)

lemma filter_upt_Suc:
  "filter Q [0..<Suc n] = (if Q 0 then [0] else []) @ map Suc (filter (\<lambda>j. Q (Suc j)) [0..<n])"
  by (simp add: upt_0_Suc filter_map o_def del: upt_Suc)

lemma consumed_until_shift [simp]:
  "consumed_until (map Suc js) (Suc n) = Suc (consumed_until js n)"
  by (simp add: consumed_until_def split: list.split)

lemma consumed_until_Cons [simp]: "consumed_until (j # js) n = Suc j"
  by (simp add: consumed_until_def)

lemma emitted_positions:
  "emitted P pre xs = map ((!) xs) (filter (\<lambda>j. P (pre @ take j xs) (xs ! j)) [0..<length xs])"
proof (induction xs arbitrary: pre)
  case Nil
  show ?case by simp
next
  case (Cons x xs)
  show ?case
    by (simp add: filter_upt_Suc Cons.IH o_def del: upt_Suc)
qed

lemma stop_at_positions:
  "stop_at P pre xs
   = consumed_until (filter (\<lambda>j. P (pre @ take j xs) (xs ! j)) [0..<length xs]) (length xs)"
proof (induction xs arbitrary: pre)
  case Nil
  show ?case by (simp add: consumed_until_def)
next
  case (Cons x xs)
  show ?case
    by (simp add: filter_upt_Suc Cons.IH del: upt_Suc)
qed

lemma emitted_filter: "emitted (\<lambda>pre. p) pre xs = filter p xs"
  by (induction xs arbitrary: pre) simp_all

lemma filter_positions: "filter p xs = map ((!) xs) (positions p xs)"
  using emitted_positions[of "\<lambda>pre. p" "[]" xs] by (simp add: emitted_filter positions_def)

lemma stop_at_filter: "stop_at (\<lambda>pre. p) pre xs = consumed_until (positions p xs) (length xs)"
  by (simp add: stop_at_positions positions_def)

lemma emitted_first_sightings:
  "emitted (\<lambda>pre x. x \<notin> set pre) [] xs = map ((!) xs) (first_sightings xs)"
  by (simp add: emitted_positions first_sightings_def)

lemma emitted_second_sightings:
  "emitted (\<lambda>pre x. count_list pre x = 1) [] xs = map ((!) xs) (second_sightings xs)"
  by (simp add: emitted_positions second_sightings_def)

subsection \<open>Loops without a map\<close>

lemma loop_collect:
  "slices_Values i xs (\<lambda>v w. if p v then probe (\<lambda>_. True) (f v) w else (True, w)) (push log w)
   = push (log @ map f (filter p xs)) (pull i (length xs) w)"
  by (induction xs arbitrary: log w) (simp_all add: probe_def)

lemma stop_at_const: "stop_at (\<lambda>pre. p) pre xs = stop_at (\<lambda>pre. p) pre' xs"
  by (induction xs arbitrary: pre pre') auto

lemma stop_at_const_Cons:
  "stop_at (\<lambda>pre. p) [] (x # xs) = (if p x then 1 else Suc (stop_at (\<lambda>pre. p) [] xs))"
  using stop_at_const[of p "[x]" xs "[]"] by simp

lemma loop_stop:
  "slices_Values i xs (\<lambda>v w. if p v then probe (\<lambda>_. False) (f v) w else (True, w)) (push log w)
   = push (log @ take 1 (map f (filter p xs))) (pull i (stop_at (\<lambda>pre. p) [] xs) w)"
  by (induction xs arbitrary: log w) (simp_all add: probe_def stop_at_const_Cons del: stop_at.simps(2))

lemma loop_all_collect:
  "slices_Values i xs (\<lambda>v. probe (\<lambda>_. True) (f v)) (push log w)
   = push (log @ map f xs) (pull i (length xs) w)"
  using loop_collect[of i xs "\<lambda>_. True" f log w] by simp

lemma loop_all_stop:
  "slices_Values i xs (\<lambda>v. probe (\<lambda>_. False) (f v)) (push log w)
   = push (log @ take 1 (map f xs)) (pull i (min 1 (length xs)) w)"
  using loop_stop[of i xs "\<lambda>_. True" f log w] by (cases xs) simp_all

subsection \<open>The loops of RemoveSeq\<close>

lemma remove_inner:
  "slices_Values j ys (\<lambda>v2 w. if v1 = v2 then (False, upd_var (\<lambda>found. True) w) else (True, w))
     (push False w)
   = push (v1 \<in> set ys) (pull j (stop_at (\<lambda>pre. (=) v1) [] ys) w)"
  by (induction ys arbitrary: w) (auto simp add: stop_at_const_Cons simp del: stop_at.simps(2))

lemma remove_collect:
  "slices_Values i xs (\<lambda>v1 w.
        let w1 = slices_Values j ys (\<lambda>v2 w. if v1 = v2 then (False, upd_var (\<lambda>found. True) w) else (True, w))
                   (push False w);
            found = var w1;
            w2 = pop w1
        in if \<not> found then probe (\<lambda>_. True) v1 w2 else (True, w2)) (push log w)
   = push (log @ filter (\<lambda>x. x \<notin> set ys) xs) (pull j (remove_cost ys xs) (pull i (length xs) w))"
  by (induction xs arbitrary: log w) (simp_all add: remove_inner probe_def remove_cost_def Let_def add.commute)

section \<open>The loops of DeduplicationSeq and DuplicateSeq\<close>

lemma seen_map_snoc: "(seen_map pre)(x \<mapsto> True) = seen_map (pre @ [x])"
  by (auto simp: seen_map_def)

lemma count_map_snoc:
  "(count_map pre)(x \<mapsto> (case count_map pre x of Some cnt \<Rightarrow> cnt + 1 | None \<Rightarrow> 1)) = count_map (pre @ [x])"
  by (auto simp: count_map_def)

lemma dedup_body_step:
  assumes "seen w m = seen_map pre"
  shows "dedup_body m yield x w =
     (if x \<notin> set pre then yield x (set_seen m (seen_map (pre @ [x])) w)
      else (True, set_seen m (seen_map (pre @ [x])) w))"
proof (cases "x \<in> set pre")
  case True
  then have "seen_map (pre @ [x]) = seen_map pre" "seen_map pre x = Some True"
    by (auto simp: seen_map_def)
  with True assms show ?thesis by (simp add: dedup_body_def set_seen_same)
next
  case False
  then have "seen_map pre x = None" by (simp add: seen_map_def)
  with False assms seen_map_snoc[of pre x] show ?thesis
    by (simp add: dedup_body_def set_seen_def)
qed

lemma dup_body_step:
  assumes "counts w m = count_map pre"
  shows "dup_body m yield x w =
     (if count_list pre x = 1 then yield x (set_counts m (count_map (pre @ [x])) w)
      else (True, set_counts m (count_map (pre @ [x])) w))"
proof (cases "x \<in> set pre")
  case True
  then have c: "count_map pre x = Some (int (count_list pre x))" by (simp add: count_map_def)
  from count_map_snoc[of pre x] c
  have "(count_map pre)(x \<mapsto> int (count_list pre x) + 1) = count_map (pre @ [x])" by simp
  with True assms c show ?thesis by (simp add: dup_body_def set_counts_def Let_def)
next
  case False
  then have c: "count_map pre x = None" "count_list pre x = 0" by (simp_all add: count_map_def)
  from count_map_snoc[of pre x] c
  have "(count_map pre)(x \<mapsto> 1) = count_map (pre @ [x])" by simp
  with False assms c show ?thesis by (simp add: dup_body_def set_counts_def)
qed

lemma dedup_collect:
  "seen w m = seen_map pre \<Longrightarrow>
   slices_Values i xs (dedup_body m (probe (\<lambda>_. True))) (push log w)
   = push (log @ emitted (\<lambda>pre x. x \<notin> set pre) pre xs)
       (pull i (length xs) (set_seen m (seen_map (pre @ xs)) w))"
proof (induction xs arbitrary: log w pre)
  case Nil
  then show ?case by (simp add: set_seen_same)
next
  case (Cons x xs)
  have s: "seen (pull i 1 (set_seen m (seen_map (pre @ [x])) w)) m = seen_map (pre @ [x])"
    by simp
  show ?case using Cons.prems Cons.IH[OF s, of log] Cons.IH[OF s, of "log @ [x]"]
    by (simp add: dedup_body_step[where pre = pre] probe_def)
qed

lemma dedup_stop:
  "seen w m = seen_map pre \<Longrightarrow>
   slices_Values i xs (dedup_body m (probe (\<lambda>_. False))) (push log w)
   = push (log @ take 1 (emitted (\<lambda>pre x. x \<notin> set pre) pre xs))
       (pull i (stop_at (\<lambda>pre x. x \<notin> set pre) pre xs)
          (set_seen m (seen_map (pre @ take (stop_at (\<lambda>pre x. x \<notin> set pre) pre xs) xs)) w))"
proof (induction xs arbitrary: log w pre)
  case Nil
  then show ?case by (simp add: set_seen_same)
next
  case (Cons x xs)
  have s: "seen (pull i 1 (set_seen m (seen_map (pre @ [x])) w)) m = seen_map (pre @ [x])"
    by simp
  show ?case using Cons.prems Cons.IH[OF s, of log]
    by (simp add: dedup_body_step[where pre = pre] probe_def)
qed

lemma dup_collect:
  "counts w m = count_map pre \<Longrightarrow>
   slices_Values i xs (dup_body m (probe (\<lambda>_. True))) (push log w)
   = push (log @ emitted (\<lambda>pre x. count_list pre x = 1) pre xs)
       (pull i (length xs) (set_counts m (count_map (pre @ xs)) w))"
proof (induction xs arbitrary: log w pre)
  case Nil
  then show ?case by (simp add: set_counts_same)
next
  case (Cons x xs)
  have s: "counts (pull i 1 (set_counts m (count_map (pre @ [x])) w)) m = count_map (pre @ [x])"
    by simp
  show ?case using Cons.prems Cons.IH[OF s, of log] Cons.IH[OF s, of "log @ [x]"]
    by (simp add: dup_body_step[where pre = pre] probe_def)
qed

lemma dup_stop:
  "counts w m = count_map pre \<Longrightarrow>
   slices_Values i xs (dup_body m (probe (\<lambda>_. False))) (push log w)
   = push (log @ take 1 (emitted (\<lambda>pre x. count_list pre x = 1) pre xs))
       (pull i (stop_at (\<lambda>pre x. count_list pre x = 1) pre xs)
          (set_counts m (count_map (pre @ take (stop_at (\<lambda>pre x. count_list pre x = 1) pre xs) xs)) w))"
proof (induction xs arbitrary: log w pre)
  case Nil
  then show ?case by (simp add: set_counts_same)
next
  case (Cons x xs)
  have s: "counts (pull i 1 (set_counts m (count_map (pre @ [x])) w)) m = count_map (pre @ [x])"
    by simp
  show ?case using Cons.prems Cons.IH[OF s, of log]
    by (simp add: dup_body_step[where pre = pre] probe_def)
qed

lemma fresh_pull [simp]: "fresh (pull i n w) = fresh w"
  by (simp add: pull_def)

lemma fresh_set_seen [simp]: "fresh (set_seen m c w) = fresh w"
  by (simp add: set_seen_def)

lemma fresh_set_counts [simp]: "fresh (set_counts m c w) = fresh w"
  by (simp add: set_counts_def)

lemma pulled_push [simp]: "pulled (push l w) = pulled w"
  by (simp add: push_def)

lemma seen_map_Nil [simp]: "seen_map [] = Map.empty"
  by (simp add: seen_map_def)

lemma count_map_Nil [simp]: "count_map [] = Map.empty"
  by (simp add: count_map_def)


section \<open>Drives of the combinators without a map\<close>

lemma FilterSeq_collect:
  "first_drive (\<lambda>_. True) (FilterSeq (slices_Values i xs) fn) w
   = (filter fn xs, pull i (length xs) w)"
  using loop_collect[of i xs fn "\<lambda>v. v" "[]" w]
  by (simp add: first_drive_def observe_def FilterSeq_def)

lemma FilterSeq_stop:
  "first_drive (\<lambda>_. False) (FilterSeq (slices_Values i xs) fn) w
   = (take 1 (filter fn xs), pull i (consumed_until (positions fn xs) (length xs)) w)"
  using loop_stop[of i xs fn "\<lambda>v. v" "[]" w]
  by (simp add: first_drive_def observe_def FilterSeq_def stop_at_filter)

lemma PatternSeq_collect:
  "first_drive (\<lambda>_. True) (PatternSeq T (slices_Values i xs) pattern) w
   = (filter (\<lambda>v. pattern (text_of T v)) xs, pull i (length xs) w)"
  using loop_collect[of i xs "\<lambda>v. pattern (text_of T v)" "\<lambda>v. v" "[]" w]
  by (simp add: first_drive_def observe_def PatternSeq_def Let_def)

lemma PatternSeq_stop:
  "first_drive (\<lambda>_. False) (PatternSeq T (slices_Values i xs) pattern) w
   = (take 1 (filter (\<lambda>v. pattern (text_of T v)) xs),
      pull i (consumed_until (positions (\<lambda>v. pattern (text_of T v)) xs) (length xs)) w)"
  using loop_stop[of i xs "\<lambda>v. pattern (text_of T v)" "\<lambda>v. v" "[]" w]
  by (simp add: first_drive_def observe_def PatternSeq_def Let_def stop_at_filter)

lemma StringPatternSeq_collect:
  "first_drive (\<lambda>_. True) (StringPatternSeq T (slices_Values i xs) pattern) w
   = (filter (\<lambda>v. text_of T v = pattern) xs, pull i (length xs) w)"
  using loop_collect[of i xs "\<lambda>v. text_of T v = pattern" "\<lambda>v. v" "[]" w]
  by (simp add: first_drive_def observe_def StringPatternSeq_def Let_def)

lemma StringPatternSeq_stop:
  "first_drive (\<lambda>_. False) (StringPatternSeq T (slices_Values i xs) pattern) w
   = (take 1 (filter (\<lambda>v. text_of T v = pattern) xs),
      pull i (consumed_until (positions (\<lambda>v. text_of T v = pattern) xs) (length xs)) w)"
  using loop_stop[of i xs "\<lambda>v. text_of T v = pattern" "\<lambda>v. v" "[]" w]
  by (simp add: first_drive_def observe_def StringPatternSeq_def Let_def stop_at_filter)

lemma ReplaceFuncSeq_collect:
  "first_drive (\<lambda>_. True) (ReplaceFuncSeq (slices_Values i xs) fn) w
   = (map fn xs, pull i (length xs) w)"
  by (simp add: first_drive_def observe_def ReplaceFuncSeq_def loop_all_collect)

lemma ReplaceFuncSeq_stop:
  "first_drive (\<lambda>_. False) (ReplaceFuncSeq (slices_Values i xs) fn) w
   = (take 1 (map fn xs), pull i (min 1 (length xs)) w)"
  by (simp add: first_drive_def observe_def ReplaceFuncSeq_def loop_all_stop)

lemma ConvertSeq_collect:
  "first_drive (\<lambda>_. True) (ConvertSeq (slices_Values i xs) fn) w
   = (map fn xs, pull i (length xs) w)"
  by (simp add: first_drive_def observe_def ConvertSeq_def loop_all_collect)

lemma ConvertSeq_stop:
  "first_drive (\<lambda>_. False) (ConvertSeq (slices_Values i xs) fn) w
   = (take 1 (map fn xs), pull i (min 1 (length xs)) w)"
  by (simp add: first_drive_def observe_def ConvertSeq_def loop_all_stop)

lemma AnySeq_collect:
  "first_drive (\<lambda>_. True) (AnySeq (slices_Values i xs)) w
   = (map Any xs, pull i (length xs) w)"
  by (simp add: first_drive_def observe_def AnySeq_def loop_all_collect)

lemma AnySeq_stop:
  "first_drive (\<lambda>_. False) (AnySeq (slices_Values i xs)) w
   = (take 1 (map Any xs), pull i (min 1 (length xs)) w)"
  by (simp add: first_drive_def observe_def AnySeq_def loop_all_stop)

lemma HashSeq_collect:
  "first_drive (\<lambda>_. True) (HashSeq sum64 (slices_Values i xs)) w
   = (map (\<lambda>v. (sum64 v, v)) xs, pull i (length xs) w)"
  by (simp add: first_drive_def observe_def HashSeq_def loop_all_collect)

lemma HashSeq_stop:
  "first_drive (\<lambda>_. False) (HashSeq sum64 (slices_Values i xs)) w
   = (take 1 (map (\<lambda>v. (sum64 v, v)) xs), pull i (min 1 (length xs)) w)"
  by (simp add: first_drive_def observe_def HashSeq_def loop_all_stop)

lemma ReplaceSeq_body:
  "(\<lambda>v w. case g v of Some r \<Rightarrow> yield r w | None \<Rightarrow> yield v w) = (\<lambda>v. yield (replaced g v))"
  by (auto simp: fun_eq_iff replaced_def split: option.split)

lemma ReplaceSeq_collect:
  "first_drive (\<lambda>_. True) (ReplaceSeq (slices_Values i xs) g) w
   = (map (replaced g) xs, pull i (length xs) w)"
  by (simp add: first_drive_def observe_def ReplaceSeq_def ReplaceSeq_body loop_all_collect)

lemma ReplaceSeq_stop:
  "first_drive (\<lambda>_. False) (ReplaceSeq (slices_Values i xs) g) w
   = (take 1 (map (replaced g) xs), pull i (min 1 (length xs)) w)"
  by (simp add: first_drive_def observe_def ReplaceSeq_def ReplaceSeq_body loop_all_stop)

section \<open>Drives of RemoveSeq, DeduplicationSeq and DuplicateSeq\<close>

lemma DeduplicationSeq_eq:
  "DeduplicationSeq s w0
   = (\<lambda>yield. s (dedup_body (fresh w0) yield),
      set_seen (fresh w0) Map.empty (w0\<lparr>fresh := Suc (fresh w0)\<rparr>))"
  by (simp add: DeduplicationSeq_def dedup_body_def Let_def set_seen_def)

lemma DuplicateSeq_eq:
  "DuplicateSeq s w0
   = (\<lambda>yield. s (dup_body (fresh w0) yield),
      set_counts (fresh w0) Map.empty (w0\<lparr>fresh := Suc (fresh w0)\<rparr>))"
  by (simp add: DuplicateSeq_def dup_body_def Let_def set_counts_def)

lemma remove_stop:
  "slices_Values i xs (\<lambda>v1 w.
        let w1 = slices_Values j ys (\<lambda>v2 w. if v1 = v2 then (False, upd_var (\<lambda>found. True) w) else (True, w))
                   (push False w);
            found = var w1;
            w2 = pop w1
        in if \<not> found then probe (\<lambda>_. False) v1 w2 else (True, w2)) (push log w)
   = push (log @ take 1 (filter (\<lambda>x. x \<notin> set ys) xs))
       (pull j (remove_cost ys (take (stop_at (\<lambda>pre x. x \<notin> set ys) [] xs) xs))
          (pull i (stop_at (\<lambda>pre x. x \<notin> set ys) [] xs) w))"
  by (induction xs arbitrary: log w)
     (simp_all add: remove_inner probe_def remove_cost_def Let_def add.commute stop_at_const_Cons
        del: stop_at.simps(2))

lemma RemoveSeq_collect:
  "first_drive (\<lambda>_. True) (RemoveSeq (slices_Values i xs) (slices_Values j ys)) w
   = (filter (\<lambda>x. x \<notin> set ys) xs, pull j (remove_cost ys xs) (pull i (length xs) w))"
  using remove_collect[of i xs j ys "[]" w]
  by (simp add: first_drive_def observe_def RemoveSeq_def Let_def)

lemma RemoveSeq_stop:
  "first_drive (\<lambda>_. False) (RemoveSeq (slices_Values i xs) (slices_Values j ys)) w
   = (take 1 (filter (\<lambda>x. x \<notin> set ys) xs),
      pull j (remove_cost ys (take (consumed_until (positions (\<lambda>x. x \<notin> set ys) xs) (length xs)) xs))
        (pull i (consumed_until (positions (\<lambda>x. x \<notin> set ys) xs) (length xs)) w))"
  using remove_stop[of i xs j ys "[]" w]
  by (simp add: first_drive_def observe_def RemoveSeq_def Let_def stop_at_filter)

lemma DeduplicationSeq_drive:
  "first_drive (\<lambda>_. True) (DeduplicationSeq (slices_Values i xs)) w
   = (map ((!) xs) (first_sightings xs),
      pull i (length xs) (set_seen (fresh w) (seen_map xs) (w\<lparr>fresh := Suc (fresh w)\<rparr>)))"
  using dedup_collect[of "set_seen (fresh w) Map.empty (w\<lparr>fresh := Suc (fresh w)\<rparr>)" "fresh w" "[]" i xs "[]"]
  by (simp add: first_drive_def observe_def DeduplicationSeq_eq emitted_first_sightings)

lemma DuplicateSeq_drive:
  "first_drive (\<lambda>_. True) (DuplicateSeq (slices_Values i xs)) w
   = (map ((!) xs) (second_sightings xs),
      pull i (length xs) (set_counts (fresh w) (count_map xs) (w\<lparr>fresh := Suc (fresh w)\<rparr>)))"
  using dup_collect[of "set_counts (fresh w) Map.empty (w\<lparr>fresh := Suc (fresh w)\<rparr>)" "fresh w" "[]" i xs "[]"]
    emitted_second_sightings[of xs]
  by (simp add: first_drive_def observe_def DuplicateSeq_eq)

lemma stop_at_first_sightings:
  "stop_at (\<lambda>pre x. x \<notin> set pre) [] xs = consumed_until (first_sightings xs) (length xs)"
  by (simp add: stop_at_positions first_sightings_def)

lemma stop_at_second_sightings:
  "stop_at (\<lambda>pre x. count_list pre x = 1) [] xs = consumed_until (second_sightings xs) (length xs)"
  by (simp add: stop_at_positions second_sightings_def)

lemma DeduplicationSeq_stop:
  "fst (first_drive (\<lambda>_. False) (DeduplicationSeq (slices_Values i xs)) w)
     = take 1 (map ((!) xs) (first_sightings xs))
   \<and> pulled (snd (first_drive (\<lambda>_. False) (DeduplicationSeq (slices_Values i xs)) w))
     = (pulled w)(i := pulled w i + consumed_until (first_sightings xs) (length xs))"
  using dedup_stop[of "set_seen (fresh w) Map.empty (w\<lparr>fresh := Suc (fresh w)\<rparr>)" "fresh w" "[]" i xs "[]"]
  by (simp add: first_drive_def observe_def DeduplicationSeq_eq emitted_first_sightings
      stop_at_first_sightings)

lemma DuplicateSeq_stop:
  "fst (first_drive (\<lambda>_. False) (DuplicateSeq (slices_Values i xs)) w)
     = take 1 (map ((!) xs) (second_sightings xs))
   \<and> pulled (snd (first_drive (\<lambda>_. False) (DuplicateSeq (slices_Values i xs)) w))
     = (pulled w)(i := pulled w i + consumed_until (second_sightings xs) (length xs))"
  using dup_stop[of "set_counts (fresh w) Map.empty (w\<lparr>fresh := Suc (fresh w)\<rparr>)" "fresh w" "[]" i xs "[]"]
    emitted_second_sightings[of xs] stop_at_second_sightings[of xs]
  by (simp add: first_drive_def observe_def DuplicateSeq_eq)

section \<open>Second drives and separate instances\<close>

lemma emitted_all_seen: "set ys \<subseteq> set pre \<Longrightarrow> emitted (\<lambda>pre x. x \<notin> set pre) pre ys = []"
  by (induction ys arbitrary: pre) (auto simp: subset_insertI2)

lemma set_seen_fresh [simp]: "(set_seen m c w)\<lparr>fresh := n\<rparr> = set_seen m c (w\<lparr>fresh := n\<rparr>)"
  by (simp add: set_seen_def)

lemma set_counts_fresh [simp]: "(set_counts m c w)\<lparr>fresh := n\<rparr> = set_counts m c (w\<lparr>fresh := n\<rparr>)"
  by (simp add: set_counts_def)

lemma count_list_nth_split:
  "j < length xs \<Longrightarrow> count_list xs (xs ! j) = count_list (take j xs) (xs ! j) + 1 + count_list (drop (Suc j) xs) (xs ! j)"
proof -
  assume "j < length xs"
  then have "xs = take j xs @ xs ! j # drop (Suc j) xs" by (rule id_take_nth_drop)
  then have "count_list xs (xs ! j) = count_list (take j xs @ xs ! j # drop (Suc j) xs) (xs ! j)"
    by simp
  then show ?thesis by simp
qed

lemma emitted_counted_once:
  "emitted (\<lambda>pre x. count_list pre x = 1) xs xs = filter (\<lambda>v. count_list xs v = 1) xs"
proof -
  have "filter (\<lambda>j. count_list (xs @ take j xs) (xs ! j) = 1) [0..<length xs]
        = filter (\<lambda>j. count_list xs (xs ! j) = 1) [0..<length xs]"
  proof (rule filter_cong[OF refl])
    fix j assume "j \<in> set [0..<length xs]"
    then have j: "j < length xs" by simp
    from count_list_nth_split[OF j]
    show "(count_list (xs @ take j xs) (xs ! j) = 1) = (count_list xs (xs ! j) = 1)"
      by auto
  qed
  then show ?thesis
    using filter_positions[of "\<lambda>v. count_list xs v = 1" xs]
    by (simp add: emitted_positions positions_def)
qed

lemma DeduplicationSeq_twice:
  "drive_twice (DeduplicationSeq (slices_Values i xs)) w = (map ((!) xs) (first_sightings xs), [])"
proof -
  let ?m = "fresh w"
  let ?w1 = "set_seen ?m Map.empty (w\<lparr>fresh := Suc ?m\<rparr>)"
  let ?w2 = "pull i (length xs) (set_seen ?m (seen_map xs) (w\<lparr>fresh := Suc ?m\<rparr>))"
  have 1: "slices_Values i xs (dedup_body ?m (probe (\<lambda>_. True))) (push [] ?w1)
           = push (map ((!) xs) (first_sightings xs)) ?w2"
    using dedup_collect[of ?w1 ?m "[]" i xs "[]"] by (simp add: emitted_first_sightings)
  have 2: "slices_Values i xs (dedup_body ?m (probe (\<lambda>_. True))) (push [] ?w2)
           = push [] (pull i (length xs) (set_seen ?m (seen_map (xs @ xs)) ?w2))"
    using dedup_collect[of ?w2 ?m xs i xs "[]"] by (simp add: emitted_all_seen)
  show ?thesis
    by (simp add: drive_twice_def slices_Collect_def observe_def DeduplicationSeq_eq 1 2)
qed

lemma DuplicateSeq_twice:
  "drive_twice (DuplicateSeq (slices_Values i xs)) w
   = (map ((!) xs) (second_sightings xs), filter (\<lambda>v. count_list xs v = 1) xs)"
proof -
  let ?m = "fresh w"
  let ?w1 = "set_counts ?m Map.empty (w\<lparr>fresh := Suc ?m\<rparr>)"
  let ?w2 = "pull i (length xs) (set_counts ?m (count_map xs) (w\<lparr>fresh := Suc ?m\<rparr>))"
  have 1: "slices_Values i xs (dup_body ?m (probe (\<lambda>_. True))) (push [] ?w1)
           = push (map ((!) xs) (second_sightings xs)) ?w2"
    using dup_collect[of ?w1 ?m "[]" i xs "[]"] emitted_second_sightings[of xs] by simp
  have 2: "slices_Values i xs (dup_body ?m (probe (\<lambda>_. True))) (push [] ?w2)
           = push (filter (\<lambda>v. count_list xs v = 1) xs)
               (pull i (length xs) (set_counts ?m (count_map (xs @ xs)) ?w2))"
    using dup_collect[of ?w2 ?m xs i xs "[]"] emitted_counted_once[of xs] by simp
  show ?thesis
    by (simp add: drive_twice_def slices_Collect_def observe_def DuplicateSeq_eq 1 2)
qed

lemma DeduplicationSeq_two:
  "two_instances (DeduplicationSeq (slices_Values i xs)) w
   = (map ((!) xs) (first_sightings xs), map ((!) xs) (first_sightings xs))"
proof -
  let ?m = "fresh w"
  let ?w2 = "set_seen (Suc ?m) Map.empty (set_seen ?m Map.empty (w\<lparr>fresh := Suc (Suc ?m)\<rparr>))"
  let ?w3 = "pull i (length xs) (set_seen ?m (seen_map xs) ?w2)"
  have 1: "slices_Values i xs (dedup_body ?m (probe (\<lambda>_. True))) (push [] ?w2)
           = push (map ((!) xs) (first_sightings xs)) ?w3"
    using dedup_collect[of ?w2 ?m "[]" i xs "[]"] by (simp add: emitted_first_sightings)
  have 2: "slices_Values i xs (dedup_body (Suc ?m) (probe (\<lambda>_. True))) (push [] ?w3)
           = push (map ((!) xs) (first_sightings xs))
               (pull i (length xs) (set_seen (Suc ?m) (seen_map xs) ?w3))"
    using dedup_collect[of ?w3 "Suc ?m" "[]" i xs "[]"] by (simp add: emitted_first_sightings)
  show ?thesis using 1 2
    by (simp add: two_instances_def slices_Collect_def observe_def DeduplicationSeq_eq)
qed

lemma DuplicateSeq_two:
  "two_instances (DuplicateSeq (slices_Values i xs)) w
   = (map ((!) xs) (second_sightings xs), map ((!) xs) (second_sightings xs))"
proof -
  let ?m = "fresh w"
  let ?w2 = "set_counts (Suc ?m) Map.empty (set_counts ?m Map.empty (w\<lparr>fresh := Suc (Suc ?m)\<rparr>))"
  let ?w3 = "pull i (length xs) (set_counts ?m (count_map xs) ?w2)"
  have 1: "slices_Values i xs (dup_body ?m (probe (\<lambda>_. True))) (push [] ?w2)
           = push (map ((!) xs) (second_sightings xs)) ?w3"
    using dup_collect[of ?w2 ?m "[]" i xs "[]"] emitted_second_sightings[of xs] by simp
  have 2: "slices_Values i xs (dup_body (Suc ?m) (probe (\<lambda>_. True))) (push [] ?w3)
           = push (map ((!) xs) (second_sightings xs))
               (pull i (length xs) (set_counts (Suc ?m) (count_map xs) ?w3))"
    using dup_collect[of ?w3 "Suc ?m" "[]" i xs "[]"] emitted_second_sightings[of xs] by simp
  show ?thesis using 1 2
    by (simp add: two_instances_def slices_Collect_def observe_def DuplicateSeq_eq)
qed

section \<open>What the two maps let through\<close>

lemma set_emitted_dup:
  "set (emitted (\<lambda>pre x. count_list pre x = 1) pre xs)
   = {v. count_list pre v \<le> 1 \<and> 2 \<le> count_list (pre @ xs) v}"
  by (induction xs arbitrary: pre) auto

lemma distinct_emitted_dup: "distinct (emitted (\<lambda>pre x. count_list pre x = 1) pre xs)"
proof (induction xs arbitrary: pre)
  case Nil
  show ?case by simp
next
  case (Cons x xs)
  have "x \<notin> set (emitted (\<lambda>pre x. count_list pre x = 1) (pre @ [x]) xs)"
    if "count_list pre x = 1"
    unfolding set_emitted_dup using that by simp
  with Cons.IH[of "pre @ [x]"] show ?case by auto
qed

lemma set_emitted_dedup: "set (emitted (\<lambda>pre x. x \<notin> set pre) pre xs) = set xs - set pre"
  by (induction xs arbitrary: pre) auto

lemma distinct_emitted_dedup: "distinct (emitted (\<lambda>pre x. x \<notin> set pre) pre xs)"
  by (induction xs arbitrary: pre) (auto simp: set_emitted_dedup)

lemma emitted_dedup_distinct:
  "distinct ys \<Longrightarrow> set ys \<inter> set pre = {} \<Longrightarrow> emitted (\<lambda>pre x. x \<notin> set pre) pre ys = ys"
  by (induction ys arbitrary: pre) auto

lemma dedup_dedup_step:
  assumes "seen w m1 = seen_map pre" "seen w m2 = seen_map pre" "m1 \<noteq> m2"
  shows "dedup_body m1 (dedup_body m2 yield) x w =
     (if x \<notin> set pre
      then yield x (set_seen m2 (seen_map (pre @ [x])) (set_seen m1 (seen_map (pre @ [x])) w))
      else (True, set_seen m2 (seen_map (pre @ [x])) (set_seen m1 (seen_map (pre @ [x])) w)))"
proof -
  let ?w = "set_seen m1 (seen_map (pre @ [x])) w"
  have 2: "seen ?w m2 = seen_map pre" using assms by simp
  have "set_seen m2 (seen_map (pre @ [x])) ?w = ?w" if "x \<in> set pre"
  proof (rule set_seen_same)
    from that have "seen_map (pre @ [x]) = seen_map pre" by (auto simp: seen_map_def)
    with 2 show "seen ?w m2 = seen_map (pre @ [x])" by simp
  qed
  then show ?thesis
    by (simp add: dedup_body_step[OF assms(1)] dedup_body_step[OF 2])
qed

lemma dedup_dedup_collect:
  "seen w m1 = seen_map pre \<Longrightarrow> seen w m2 = seen_map pre \<Longrightarrow> m1 \<noteq> m2 \<Longrightarrow>
   slices_Values i xs (dedup_body m1 (dedup_body m2 (probe (\<lambda>_. True)))) (push log w)
   = push (log @ emitted (\<lambda>pre x. x \<notin> set pre) pre xs)
       (pull i (length xs)
          (set_seen m2 (seen_map (pre @ xs)) (set_seen m1 (seen_map (pre @ xs)) w)))"
proof (induction xs arbitrary: log w pre)
  case Nil
  then show ?case by (simp add: set_seen_same)
next
  case (Cons x xs)
  let ?w = "pull i 1 (set_seen m2 (seen_map (pre @ [x])) (set_seen m1 (seen_map (pre @ [x])) w))"
  have s1: "seen ?w m1 = seen_map (pre @ [x])" using Cons.prems by simp
  have s2: "seen ?w m2 = seen_map (pre @ [x])" by simp
  show ?case
    using Cons.prems Cons.IH[OF s1 s2 Cons.prems(3), of log] Cons.IH[OF s1 s2 Cons.prems(3), of "log @ [x]"]
    by (simp add: dedup_dedup_step[where pre = pre] probe_def)
qed

lemma DeduplicationSeq_piped:
  "first_drive (\<lambda>_. True) (piped (DeduplicationSeq (slices_Values i xs)) DeduplicationSeq) w
   = (map ((!) xs) (first_sightings xs),
      pull i (length xs)
        (set_seen (Suc (fresh w)) (seen_map xs)
           (set_seen (fresh w) (seen_map xs) (w\<lparr>fresh := Suc (Suc (fresh w))\<rparr>))))"
proof -
  let ?m = "fresh w"
  let ?w2 = "set_seen (Suc ?m) Map.empty (set_seen ?m Map.empty (w\<lparr>fresh := Suc (Suc ?m)\<rparr>))"
  have "slices_Values i xs (dedup_body ?m (dedup_body (Suc ?m) (probe (\<lambda>_. True)))) (push [] ?w2)
        = push (map ((!) xs) (first_sightings xs))
            (pull i (length xs) (set_seen (Suc ?m) (seen_map xs) (set_seen ?m (seen_map xs) ?w2)))"
    using dedup_dedup_collect[of ?w2 ?m "[]" "Suc ?m" i xs "[]"]
    by (simp add: emitted_first_sightings)
  then show ?thesis
    by (simp add: first_drive_def piped_def observe_def DeduplicationSeq_eq)
qed

section \<open>GroupSeq and the terminal operators\<close>

lemma group_loop:
  "slices_Values i xs (\<lambda>v w. (True, upd_var (group_add fn v) w)) (push gs w)
   = push (foldl (\<lambda>groups v. group_add fn v groups) gs xs) (pull i (length xs) w)"
  by (induction xs arbitrary: gs w) simp_all

lemma GroupSeq_eq:
  "GroupSeq order (slices_Values i xs) fn w
   = (\<lambda>yield. range_values (order (groups_of fn xs)) yield, pull i (length xs) w)"
  using group_loop[of i xs fn "[]" w]
  by (simp add: GroupSeq_def groups_of_def group_add_def[abs_def] Let_def)

lemma range_values_stop:
  "range_values es (probe (\<lambda>_. False)) (push log w) = push (log @ take 1 (map snd es)) w"
  by (cases es) (auto simp: probe_def)

lemma range_values_collect:
  "range_values es (probe (\<lambda>_. True)) (push log w) = push (log @ map snd es) w"
  by (induction es arbitrary: log) (auto simp: probe_def)

lemma group_add_not_Nil: "group_add fn v gs \<noteq> []"
  by (cases gs) (auto simp: group_add_def Let_def)

lemma groups_of_not_Nil: "xs \<noteq> [] \<Longrightarrow> groups_of fn xs \<noteq> []"
proof -
  have "gs \<noteq> [] \<Longrightarrow> foldl (\<lambda>groups v. group_add fn v groups) gs xs \<noteq> []" for gs xs
    by (induction xs arbitrary: gs) (simp_all add: group_add_not_Nil)
  then show "xs \<noteq> [] \<Longrightarrow> groups_of fn xs \<noteq> []"
    by (cases xs) (simp_all add: groups_of_def group_add_not_Nil)
qed

lemma GroupSeq_stop:
  "first_drive (\<lambda>_. False) (GroupSeq order (slices_Values i xs) fn) w
   = (take 1 (map snd (order (groups_of fn xs))), pull i (length xs) w)"
  by (simp add: first_drive_def observe_def GroupSeq_eq range_values_stop)

subsection \<open>Terminal operators over a slice\<close>

lemma sum_loop_ok:
  "\<forall>x\<in>set us. snd (fn x) = None \<Longrightarrow>
   slices_Values i (us @ rest) (sum_body fn) (push (acc, None) w)
   = slices_Values i rest (sum_body fn)
       (push (foldl (+) acc (map (\<lambda>x. fst (fn x)) us), None) (pull i (length us) w))"
proof (induction us arbitrary: acc w)
  case Nil
  show ?case by simp
next
  case (Cons u us)
  then obtain val where u: "fn u = (val, None)" by (cases "fn u") auto
  from Cons.prems have "\<forall>x\<in>set us. snd (fn x) = None" by simp
  from Cons.IH[OF this] u show ?case by (simp add: sum_body_def)
qed

lemma SumFuncSeq_eq:
  "SumFuncSeq s fn w0 =
     (let w1 = s (sum_body fn) (push (0, None) w0)
      in (case var w1 of (result, Some ret) \<Rightarrow> ret | (result, None) \<Rightarrow> (result, None), pop w1))"
  by (simp add: SumFuncSeq_def sum_body_def)

lemma SumFuncSeq_ok:
  assumes "\<forall>x\<in>set xs. snd (fn x) = None"
  shows "SumFuncSeq (slices_Values i xs) fn w
         = ((foldl (+) 0 (map (\<lambda>x. fst (fn x)) xs), None), pull i (length xs) w)"
  using sum_loop_ok[OF assms, of i "[]" 0 w]
  by (simp add: SumFuncSeq_eq Let_def)

lemma SumFuncSeq_err:
  assumes "\<forall>x\<in>set us. snd (fn x) = None" and "snd (fn x) = Some e"
  shows "SumFuncSeq (slices_Values i (us @ x # vs)) fn w
         = ((0, Some e), pull i (Suc (length us)) w)"
proof -
  obtain val where x: "fn x = (val, Some e)" using assms(2) by (cases "fn x") auto
  show ?thesis
    using sum_loop_ok[OF assms(1), of i "x # vs" 0 w] x
    by (simp add: SumFuncSeq_eq Let_def sum_body_def)
qed

lemma slices_Collect_Values:
  "slices_Collect (slices_Values i xs) w = (xs, pull i (length xs) w)"
  using loop_all_collect[of i xs "\<lambda>v. v" "[]" w]
  by (simp add: slices_Collect_def observe_def)

lemma SumSeq_Values:
  "SumSeq (slices_Values i xs) w = (foldl (+) 0 (sort xs), pull i (length xs) w)"
  by (simp add: SumSeq_def slices_Collect_Values)

lemma sort_mset_eq: "mset xs = mset ys \<Longrightarrow> sort xs = sort ys"
  by (simp add: properties_for_sort)

lemma CountSeq_Values:
  "CountSeq (slices_Values i xs) w = (int (length xs), pull i (length xs) w)"
proof -
  have "slices_Values i xs (\<lambda>v w. (True, upd_var (\<lambda>result. result + 1) w)) (push n w)
        = push (n + int (length xs)) (pull i (length xs) w)" for n :: int and w :: "('a, 'b) world"
    by (induction xs arbitrary: n w) (simp_all add: add.assoc)
  from this[of 0 w] show ?thesis by (simp add: CountSeq_def Let_def)
qed

lemma IsEmptySeq_Values:
  "IsEmptySeq (slices_Values i xs) w = (xs = [], pull i (min 1 (length xs)) w)"
  by (cases xs) (simp_all add: IsEmptySeq_def Let_def)

section \<open>First elements\<close>

lemma first_sightings_Cons:
  "first_sightings (x # xs) = 0 # map Suc (filter (\<lambda>j. xs ! j \<notin> set (x # take j xs)) [0..<length xs])"
  by (simp add: first_sightings_def filter_upt_Suc del: upt_Suc)

lemma first_sightings_head:
  "take 1 (map ((!) xs) (first_sightings xs)) = take 1 xs"
  "consumed_until (first_sightings xs) (length xs) = min 1 (length xs)"
proof -
  show "take 1 (map ((!) xs) (first_sightings xs)) = take 1 xs"
    by (cases xs) (simp_all add: first_sightings_Cons, simp add: first_sightings_def)
  show "consumed_until (first_sightings xs) (length xs) = min 1 (length xs)"
    by (cases xs) (simp_all add: first_sightings_Cons, simp add: first_sightings_def consumed_until_def)
qed

lemma range_values_pop:
  "pop (range_values es (probe answer) (push log w)) = w"
  by (induction es arbitrary: log) (auto simp: probe_def)

lemma GroupSeq_drive_pulls_nothing:
  "snd (observe answer (fst (GroupSeq order (slices_Values i xs) fn w)) w') = w'"
  by (simp add: GroupSeq_eq observe_def range_values_pop)

section \<open>The tests of sequencer_test.go\<close>

text \<open>
  The expectations of the repository's tests, computed from the definitions alone (none
  of the lemmas above is used). \<open>strings\<close> is what the type switch of the pattern
  combinators knows about an element type that is \<^verbatim>\<open>string\<close>.
\<close>

lemmas run_defs = first_drive_def observe_def probe_def slices_Collect_def drive_twice_def
  two_instances_def piped_def push_def pop_def var_def upd_var_def pull_def world0_def Let_def

lemma tests_collect:
  "fst (first_drive (\<lambda>_. True)
     (FilterSeq (slices_Values 0 [1 :: int, 2, 3, 4, 5]) (\<lambda>v. v mod 2 = 0))
     (world0 :: (int, unit) world)) = [2, 4]"
  "fst (first_drive (\<lambda>_. True)
     (RemoveSeq (slices_Values 0 [1 :: int, 2, 3, 4, 5]) (slices_Values 1 [2, 4]))
     (world0 :: (int, unit) world)) = [1, 3, 5]"
  "fst (first_drive (\<lambda>_. True)
     (StringPatternSeq \<lparr>as_string = Some, as_stringer = (\<lambda>v. None), sprintf_v = (\<lambda>v. v)\<rparr>
        (slices_Values 0 [''apple'', ''banana'', ''cherry'']) ''banana'')
     (world0 :: (string, unit) world)) = [''banana'']"
  "fst (first_drive (\<lambda>_. True)
     (DuplicateSeq (slices_Values 0 [1 :: int, 2, 3, 1, 4, 2, 5, 1]))
     (world0 :: (int, unit) world)) = [1, 2]"
  "fst (first_drive (\<lambda>_. True)
     (DeduplicationSeq (slices_Values 0 [1 :: int, 2, 2, 3, 1, 4, 1]))
     (world0 :: (int, unit) world)) = [1, 2, 3, 4]"
  "set (fst (first_drive (\<lambda>_. True)
     (GroupSeq (\<lambda>es. es) (slices_Values 0 [1 :: int, 2, 3, 4, 5, 6])
        (\<lambda>v. if v mod 2 = 0 then ''even'' else ''odd''))
     (world0 :: (int, unit) world))) = {[1, 3, 5], [2, 4, 6]}"
  "fst (first_drive (\<lambda>_. True)
     (ReplaceFuncSeq (slices_Values 0 [1 :: int, 2, 3]) (\<lambda>v. v * 10))
     (world0 :: (int, unit) world)) = [10, 20, 30]"
  "fst (first_drive (\<lambda>_. True)
     (ReplaceSeq (slices_Values 0 [''a'', ''b'', ''c'']) [''a'' \<mapsto> ''A'', ''c'' \<mapsto> ''C''])
     (world0 :: (string, unit) world)) = [''A'', ''b'', ''C'']"
  by (simp_all add: run_defs FilterSeq_def RemoveSeq_def StringPatternSeq_def text_of_def
      DuplicateSeq_def DeduplicationSeq_def GroupSeq_def ReplaceFuncSeq_def ReplaceSeq_def)

lemma tests_terminal:
  "fst (CountSeq (slices_Values 0 [1 :: int, 2, 3, 4, 5]) (world0 :: (int, unit) world)) = 5"
  "fst (SumSeq (slices_Values 0 [3 :: int, 1, 2]) (world0 :: (int, unit) world)) = 6"
  "fst (IsEmptySeq (slices_Values 0 ([] :: int list)) (world0 :: (int, unit) world))"
  "\<not> fst (IsEmptySeq (slices_Values 0 [1 :: int]) (world0 :: (int, unit) world))"
  by (simp_all add: run_defs CountSeq_def SumSeq_def IsEmptySeq_def)

lemma tests_early_termination:
  "length (fst (first_drive (\<lambda>_. False)
     (FilterSeq (slices_Values 0 [1 :: int, 2, 3, 4, 5]) (\<lambda>v. True))
     (world0 :: (int, unit) world))) = 1"
  "length (fst (first_drive (\<lambda>_. False)
     (RemoveSeq (slices_Values 0 [1 :: int, 2, 3]) (slices_Values 1 []))
     (world0 :: (int, unit) world))) = 1"
  "length (fst (first_drive (\<lambda>_. False)
     (DuplicateSeq (slices_Values 0 [1 :: int, 1, 2, 2]))
     (world0 :: (int, unit) world))) = 1"
  "length (fst (first_drive (\<lambda>_. False)
     (DeduplicationSeq (slices_Values 0 [1 :: int, 2, 3]))
     (world0 :: (int, unit) world))) = 1"
  "length (fst (first_drive (\<lambda>_. False)
     (HashSeq digest (slices_Values 0 [1 :: int, 2, 3]))
     (world0 :: (int, unit) world))) = 1"
  "length (fst (first_drive (\<lambda>_. False)
     (GroupSeq rev (slices_Values 0 [1 :: int, 2]) (\<lambda>v. v))
     (world0 :: (int, unit) world))) = 1"
  "length (fst (first_drive (\<lambda>_. False)
     (ReplaceSeq (slices_Values 0 [1 :: int, 2, 3]) [1 \<mapsto> 10])
     (world0 :: (int, unit) world))) = 1"
  "length (fst (first_drive (\<lambda>_. False)
     (AnySeq (slices_Values 0 [1 :: int, 2, 3]))
     (world0 :: (int, unit) world))) = 1"
  by (simp_all add: run_defs FilterSeq_def RemoveSeq_def DuplicateSeq_def DeduplicationSeq_def
      HashSeq_def GroupSeq_def ReplaceSeq_def AnySeq_def)

section \<open>The claims\<close>

text \<open>
  Claim C1 as it is stated fails where the combinator has nothing to yield: over the
  non-empty source \<open>[1, 2, 3]\<close>, neither \<^verbatim>\<open>FilterSeq\<close> with the predicate \<open>5 < v\<close> nor
  \<^verbatim>\<open>DuplicateSeq\<close> invokes the visitor at all.
\<close>

theorem early_termination_counterexample:
  "length (fst (first_drive (\<lambda>_. False)
      (FilterSeq (slices_Values 0 [1 :: int, 2, 3]) (\<lambda>v. 5 < v))
      (world0 :: (int, unit) world))) = 0
   \<and> length (fst (first_drive (\<lambda>_. False)
      (DuplicateSeq (slices_Values 0 [1 :: int, 2, 3]))
      (world0 :: (int, unit) world))) = 0"
  by (simp add: run_defs FilterSeq_def DuplicateSeq_def)

text \<open>
  Claim C1 (early termination), as the code has it. Driven with a visitor that always
  answers \<open>False\<close>, the sequence of every combinator invokes the visitor at most once:
  the log of the visitor is the first element of what the sequence would yield in a
  full drive, so it has one entry when there is such an element and none otherwise.
  A non-empty source is enough for \<^verbatim>\<open>HashSeq\<close>, \<^verbatim>\<open>ReplaceFuncSeq\<close>, \<^verbatim>\<open>ReplaceSeq\<close>,
  \<^verbatim>\<open>ConvertSeq\<close>, \<^verbatim>\<open>AnySeq\<close>, \<^verbatim>\<open>GroupSeq\<close> and a new \<^verbatim>\<open>DeduplicationSeq\<close>; \<^verbatim>\<open>FilterSeq\<close>,
  \<^verbatim>\<open>RemoveSeq\<close>, \<^verbatim>\<open>PatternSeq\<close> and \<^verbatim>\<open>StringPatternSeq\<close> need an element that passes, and
  \<^verbatim>\<open>DuplicateSeq\<close> needs a value that occurs a second time. The upstream source \<open>i\<close> hands
  out the elements up to the one that made the combinator yield and none after it (all
  of them when nothing is yielded). \<^verbatim>\<open>GroupSeq\<close> has pulled its whole source in the call
  that built it, and the drive pulls nothing. \<open>order\<close> is any order in which the runtime
  may range over the map of the groups: a permutation of its entries.
\<close>

theorem early_termination:
  assumes "i \<noteq> j" and "mset (order (groups_of key xs)) = mset (groups_of key xs)"
  shows
  "fst (first_drive (\<lambda>_. False) (FilterSeq (slices_Values i xs) fn) w) = take 1 (filter fn xs)
   \<and> pulled (snd (first_drive (\<lambda>_. False) (FilterSeq (slices_Values i xs) fn) w))
       = (pulled w)(i := pulled w i + consumed_until (positions fn xs) (length xs))
   \<and> fst (first_drive (\<lambda>_. False) (RemoveSeq (slices_Values i xs) (slices_Values j ys)) w)
       = take 1 (filter (\<lambda>x. x \<notin> set ys) xs)
   \<and> pulled (snd (first_drive (\<lambda>_. False) (RemoveSeq (slices_Values i xs) (slices_Values j ys)) w)) i
       = pulled w i + consumed_until (positions (\<lambda>x. x \<notin> set ys) xs) (length xs)
   \<and> fst (first_drive (\<lambda>_. False) (PatternSeq T (slices_Values i xs) pattern) w)
       = take 1 (filter (\<lambda>v. pattern (text_of T v)) xs)
   \<and> pulled (snd (first_drive (\<lambda>_. False) (PatternSeq T (slices_Values i xs) pattern) w))
       = (pulled w)(i := pulled w i
            + consumed_until (positions (\<lambda>v. pattern (text_of T v)) xs) (length xs))
   \<and> fst (first_drive (\<lambda>_. False) (StringPatternSeq T (slices_Values i xs) literal) w)
       = take 1 (filter (\<lambda>v. text_of T v = literal) xs)
   \<and> pulled (snd (first_drive (\<lambda>_. False) (StringPatternSeq T (slices_Values i xs) literal) w))
       = (pulled w)(i := pulled w i
            + consumed_until (positions (\<lambda>v. text_of T v = literal) xs) (length xs))
   \<and> fst (first_drive (\<lambda>_. False) (DuplicateSeq (slices_Values i xs)) w)
       = take 1 (map ((!) xs) (second_sightings xs))
   \<and> pulled (snd (first_drive (\<lambda>_. False) (DuplicateSeq (slices_Values i xs)) w))
       = (pulled w)(i := pulled w i + consumed_until (second_sightings xs) (length xs))
   \<and> fst (first_drive (\<lambda>_. False) (DeduplicationSeq (slices_Values i xs)) w) = take 1 xs
   \<and> pulled (snd (first_drive (\<lambda>_. False) (DeduplicationSeq (slices_Values i xs)) w))
       = (pulled w)(i := pulled w i + min 1 (length xs))
   \<and> fst (first_drive (\<lambda>_. False) (HashSeq digest (slices_Values i xs)) w)
       = take 1 (map (\<lambda>v. (digest v, v)) xs)
   \<and> pulled (snd (first_drive (\<lambda>_. False) (HashSeq digest (slices_Values i xs)) w))
       = (pulled w)(i := pulled w i + min 1 (length xs))
   \<and> length (fst (first_drive (\<lambda>_. False) (GroupSeq order (slices_Values i xs) key) w))
       = min 1 (length xs)
   \<and> snd (first_drive (\<lambda>_. False) (GroupSeq order (slices_Values i xs) key) w)
       = snd (GroupSeq order (slices_Values i xs) key w)
   \<and> fst (first_drive (\<lambda>_. False) (ReplaceFuncSeq (slices_Values i xs) rf) w)
       = take 1 (map rf xs)
   \<and> pulled (snd (first_drive (\<lambda>_. False) (ReplaceFuncSeq (slices_Values i xs) rf) w))
       = (pulled w)(i := pulled w i + min 1 (length xs))
   \<and> fst (first_drive (\<lambda>_. False) (ReplaceSeq (slices_Values i xs) g) w)
       = take 1 (map (\<lambda>v. case g v of Some r \<Rightarrow> r | None \<Rightarrow> v) xs)
   \<and> pulled (snd (first_drive (\<lambda>_. False) (ReplaceSeq (slices_Values i xs) g) w))
       = (pulled w)(i := pulled w i + min 1 (length xs))
   \<and> fst (first_drive (\<lambda>_. False) (ConvertSeq (slices_Values i xs) cf) w)
       = take 1 (map cf xs)
   \<and> pulled (snd (first_drive (\<lambda>_. False) (ConvertSeq (slices_Values i xs) cf) w))
       = (pulled w)(i := pulled w i + min 1 (length xs))
   \<and> fst (first_drive (\<lambda>_. False) (AnySeq (slices_Values i xs)) w) = take 1 (map Any xs)
   \<and> pulled (snd (first_drive (\<lambda>_. False) (AnySeq (slices_Values i xs)) w))
       = (pulled w)(i := pulled w i + min 1 (length xs))"
proof -
  have group: "length (take 1 (map snd (order (groups_of key xs)))) = min 1 (length xs)"
  proof (cases xs)
    case Nil
    with assms(2) show ?thesis by (simp add: groups_of_def)
  next
    case (Cons x xs')
    then have "groups_of key xs \<noteq> []" by (simp add: groups_of_not_Nil)
    with assms(2) have "order (groups_of key xs) \<noteq> []" by auto
    with Cons show ?thesis by (cases "order (groups_of key xs)") simp_all
  qed
  have remove: "pulled (pull j n (pull i k w)) i = pulled w i + k" for n k
    using assms(1) by simp
  have dd: "take 1 (map ((!) xs) (first_sightings xs)) = take 1 xs"
    "consumed_until (first_sightings xs) (length xs) = min 1 (length xs)"
    by (rule first_sightings_head)+
  show ?thesis
    apply (intro conjI)
    subgoal by (simp add: FilterSeq_stop)
    subgoal by (simp add: FilterSeq_stop)
    subgoal by (simp add: RemoveSeq_stop)
    subgoal by (simp only: RemoveSeq_stop snd_conv remove)
    subgoal by (simp add: PatternSeq_stop)
    subgoal by (simp add: PatternSeq_stop)
    subgoal by (simp add: StringPatternSeq_stop)
    subgoal by (simp add: StringPatternSeq_stop)
    subgoal using DuplicateSeq_stop[of i xs w] by blast
    subgoal using DuplicateSeq_stop[of i xs w] by blast
    subgoal using DeduplicationSeq_stop[of i xs w] by (simp only: dd)
    subgoal using DeduplicationSeq_stop[of i xs w] by (simp only: dd)
    subgoal by (simp add: HashSeq_stop)
    subgoal by (simp add: HashSeq_stop)
    subgoal using group by (simp only: GroupSeq_stop fst_conv)
    subgoal by (simp only: GroupSeq_stop GroupSeq_eq snd_conv)
    subgoal by (simp add: ReplaceFuncSeq_stop)
    subgoal by (simp add: ReplaceFuncSeq_stop)
    subgoal by (simp add: ReplaceSeq_stop replaced_def[abs_def])
    subgoal by (simp add: ReplaceSeq_stop)
    subgoal by (simp add: ConvertSeq_stop)
    subgoal by (simp add: ConvertSeq_stop)
    subgoal by (simp add: AnySeq_stop)
    subgoal by (simp add: AnySeq_stop)
    done
qed

text \<open>The theorem at the source \<open>[1, 2, 1]\<close>.\<close>

theorem early_termination_witness:
  "(0::nat) \<noteq> 1
   \<and> fst (first_drive (\<lambda>_. False) (FilterSeq (slices_Values 0 [1::int, 2, 1]) (\<lambda>v. 1 < v))
        (world0 :: (int, unit) world)) = [2]
   \<and> pulled (snd (first_drive (\<lambda>_. False) (FilterSeq (slices_Values 0 [1::int, 2, 1]) (\<lambda>v. 1 < v))
        (world0 :: (int, unit) world))) 0 = 2
   \<and> fst (first_drive (\<lambda>_. False) (RemoveSeq (slices_Values 0 [1::int, 2, 1]) (slices_Values 1 [1]))
        (world0 :: (int, unit) world)) = [2]
   \<and> pulled (snd (first_drive (\<lambda>_. False)
        (RemoveSeq (slices_Values 0 [1::int, 2, 1]) (slices_Values 1 [1]))
        (world0 :: (int, unit) world))) 0 = 2
   \<and> fst (first_drive (\<lambda>_. False) (DuplicateSeq (slices_Values 0 [1::int, 2, 1]))
        (world0 :: (int, unit) world)) = [1]
   \<and> pulled (snd (first_drive (\<lambda>_. False) (DuplicateSeq (slices_Values 0 [1::int, 2, 1]))
        (world0 :: (int, unit) world))) 0 = 3
   \<and> fst (first_drive (\<lambda>_. False) (DeduplicationSeq (slices_Values 0 [1::int, 2, 1]))
        (world0 :: (int, unit) world)) = [1]
   \<and> pulled (snd (first_drive (\<lambda>_. False) (DeduplicationSeq (slices_Values 0 [1::int, 2, 1]))
        (world0 :: (int, unit) world))) 0 = 1
   \<and> length (fst (first_drive (\<lambda>_. False)
        (GroupSeq (\<lambda>es. es) (slices_Values 0 [1::int, 2, 1]) (\<lambda>v. v mod 2))
        (world0 :: (int, unit) world))) = 1
   \<and> fst (first_drive (\<lambda>_. False) (ConvertSeq (slices_Values 0 [1::int, 2, 1]) (\<lambda>v. v + 1))
        (world0 :: (int, unit) world)) = [2]
   \<and> pulled (snd (first_drive (\<lambda>_. False) (ConvertSeq (slices_Values 0 [1::int, 2, 1]) (\<lambda>v. v + 1))
        (world0 :: (int, unit) world))) 0 = 1"
proof -
  have ne: "(0::nat) \<noteq> 1" by simp
  have perm: "mset ((\<lambda>es. es) (groups_of (\<lambda>v::int. v mod 2) [1, 2, 1]))
              = mset (groups_of (\<lambda>v::int. v mod 2) [1, 2, 1])" by simp
  note t = early_termination[where i = 0 and j = 1 and order = "\<lambda>es. es"
      and key = "\<lambda>v::int. v mod 2" and xs = "[1, 2, 1]" and fn = "\<lambda>v. 1 < v" and ys = "[1]"
      and cf = "\<lambda>v. v + 1" and w = "world0 :: (int, unit) world"
      and T = "\<lparr>as_string = \<lambda>v. None, as_stringer = \<lambda>v. None, sprintf_v = \<lambda>v. ''x''\<rparr>"
      and pattern = "\<lambda>txt. True" and literal = "''x''" and digest = "\<lambda>v. 0" and rf = "\<lambda>v. v"
      and g = "Map.empty", OF ne perm]
  note p = positions_def second_sightings_def consumed_until_def
  show ?thesis
    apply (intro conjI)
    subgoal by simp
    subgoal using t[THEN conjunct1]
      by (simp add: p world0_def)
    subgoal using t[THEN conjunct2, THEN conjunct1]
      by (simp add: p world0_def)
    subgoal using t[THEN conjunct2, THEN conjunct2, THEN conjunct1]
      by (simp add: p world0_def)
    subgoal using t[THEN conjunct2, THEN conjunct2, THEN conjunct2, THEN conjunct1]
      by (simp add: p world0_def)
    subgoal using t[THEN conjunct2, THEN conjunct2, THEN conjunct2, THEN conjunct2, THEN conjunct2, THEN conjunct2, THEN conjunct2, THEN conjunct2, THEN conjunct1]
      by (simp add: p world0_def)
    subgoal using t[THEN conjunct2, THEN conjunct2, THEN conjunct2, THEN conjunct2, THEN conjunct2, THEN conjunct2, THEN conjunct2, THEN conjunct2, THEN conjunct2, THEN conjunct1]
      by (simp add: p world0_def)
    subgoal using t[THEN conjunct2, THEN conjunct2, THEN conjunct2, THEN conjunct2, THEN conjunct2, THEN conjunct2, THEN conjunct2, THEN conjunct2, THEN conjunct2, THEN conjunct2, THEN conjunct1]
      by (simp add: p world0_def)
    subgoal using t[THEN conjunct2, THEN conjunct2, THEN conjunct2, THEN conjunct2, THEN conjunct2, THEN conjunct2, THEN conjunct2, THEN conjunct2, THEN conjunct2, THEN conjunct2, THEN conjunct2, THEN conjunct1]
      by (simp add: p world0_def)
    subgoal using t[THEN conjunct2, THEN conjunct2, THEN conjunct2, THEN conjunct2, THEN conjunct2, THEN conjunct2, THEN conjunct2, THEN conjunct2, THEN conjunct2, THEN conjunct2, THEN conjunct2, THEN conjunct2, THEN conjunct2, THEN conjunct2, THEN conjunct1]
      by (simp add: p world0_def)
    subgoal using t[THEN conjunct2, THEN conjunct2, THEN conjunct2, THEN conjunct2, THEN conjunct2, THEN conjunct2, THEN conjunct2, THEN conjunct2, THEN conjunct2, THEN conjunct2, THEN conjunct2, THEN conjunct2, THEN conjunct2, THEN conjunct2, THEN conjunct2, THEN conjunct2, THEN conjunct2, THEN conjunct2, THEN conjunct2, THEN conjunct2, THEN conjunct1]
      by (simp add: p world0_def)
    subgoal using t[THEN conjunct2, THEN conjunct2, THEN conjunct2, THEN conjunct2, THEN conjunct2, THEN conjunct2, THEN conjunct2, THEN conjunct2, THEN conjunct2, THEN conjunct2, THEN conjunct2, THEN conjunct2, THEN conjunct2, THEN conjunct2, THEN conjunct2, THEN conjunct2, THEN conjunct2, THEN conjunct2, THEN conjunct2, THEN conjunct2, THEN conjunct2, THEN conjunct1]
      by (simp add: p world0_def)
    done
qed

text \<open>
  Claim C2 as it is stated fails for \<^verbatim>\<open>GroupSeq\<close>, which the claim names: the call
  \<^verbatim>\<open>GroupSeq(slices.Values([1, 2]), key)\<close> has pulled both elements when it returns, before
  any visitor exists.
\<close>

theorem construction_counterexample:
  "pulled (snd (GroupSeq (\<lambda>es. es) (slices_Values 0 [1::int, 2]) (\<lambda>v. v)
      (world0 :: (int, unit) world)
      :: (int list, (int, unit) world) seq \<times> (int, unit) world)) 0 = 2"
  by (simp add: run_defs GroupSeq_def)

text \<open>
  Claim C2 (construction), as the code has it. The call of every combinator but
  \<^verbatim>\<open>GroupSeq\<close> consumes no element of its upstream sequence, whatever that sequence is:
  the call leaves the state of the run as it is, except that \<^verbatim>\<open>DuplicateSeq\<close> and
  \<^verbatim>\<open>DeduplicationSeq\<close> allocate their empty map. The call of \<^verbatim>\<open>GroupSeq\<close> runs the loop
  over the source: it consumes every element of the slice, and a later drive of the
  sequence it returned, with any visitor, consumes none.
\<close>

theorem construction_consumes_nothing:
  "snd (FilterSeq s1 fn w) = w
   \<and> snd (RemoveSeq s2 g2 w) = w
   \<and> snd (PatternSeq T s3 pattern w) = w
   \<and> snd (StringPatternSeq T s4 literal w) = w
   \<and> pulled (snd (DuplicateSeq s5 w)) = pulled w
   \<and> pulled (snd (DeduplicationSeq s6 w)) = pulled w
   \<and> snd (HashSeq digest s7 w) = w
   \<and> snd (ReplaceFuncSeq s8 rf w) = w
   \<and> snd (ReplaceSeq s9 table w) = w
   \<and> snd (ConvertSeq s10 cf w) = w
   \<and> snd (AnySeq s11 w) = w
   \<and> pulled (snd (GroupSeq order (slices_Values i xs) key w))
       = (pulled w)(i := pulled w i + length xs)
   \<and> snd (observe answer (fst (GroupSeq order (slices_Values i xs) key w)) w') = w'"
  apply (intro conjI)
  subgoal by (simp add: FilterSeq_def)
  subgoal by (simp add: RemoveSeq_def)
  subgoal by (simp add: PatternSeq_def)
  subgoal by (simp add: StringPatternSeq_def)
  subgoal by (simp add: DuplicateSeq_eq)
  subgoal by (simp add: DeduplicationSeq_eq)
  subgoal by (simp add: HashSeq_def)
  subgoal by (simp add: ReplaceFuncSeq_def)
  subgoal by (simp add: ReplaceSeq_def)
  subgoal by (simp add: ConvertSeq_def)
  subgoal by (simp add: AnySeq_def)
  subgoal by (simp add: GroupSeq_eq)
  subgoal by (rule GroupSeq_drive_pulls_nothing)
  done

text \<open>
  Claim C3 as it is stated fails for one instance driven twice: the map of
  \<^verbatim>\<open>DeduplicationSeq\<close> is made in the call, not in the drive, so the second drive over
  \<open>[1]\<close> finds the value already seen and yields nothing.
\<close>

theorem one_instance_counterexample:
  "drive_twice (DeduplicationSeq (slices_Values 0 [1::int])) (world0 :: (int, unit) world)
   = ([1], [])"
  by (simp add: run_defs DeduplicationSeq_def)

text \<open>
  Claim C3 (state of an instance), as the code has it. An instance keeps its map from one
  drive to the next: collected a second time over the same slice, a \<^verbatim>\<open>DeduplicationSeq\<close>
  yields nothing, and a \<^verbatim>\<open>DuplicateSeq\<close> yields the values that occur exactly once in the
  slice (their count goes from 1 to 2 in the second drive). Two calls of the combinator
  on the same source have maps of their own: collected one after the other, each
  sequence yields what the first drive of a new instance yields.
\<close>

theorem instance_state:
  "drive_twice (DeduplicationSeq (slices_Values i xs)) w = (map ((!) xs) (first_sightings xs), [])
   \<and> drive_twice (DuplicateSeq (slices_Values i xs)) w
       = (map ((!) xs) (second_sightings xs), filter (\<lambda>v. count_list xs v = 1) xs)
   \<and> two_instances (DeduplicationSeq (slices_Values i xs)) w
       = (fst (first_drive (\<lambda>_. True) (DeduplicationSeq (slices_Values i xs)) w),
          fst (first_drive (\<lambda>_. True) (DeduplicationSeq (slices_Values i xs)) w))
   \<and> two_instances (DuplicateSeq (slices_Values i xs)) w
       = (fst (first_drive (\<lambda>_. True) (DuplicateSeq (slices_Values i xs)) w),
          fst (first_drive (\<lambda>_. True) (DuplicateSeq (slices_Values i xs)) w))"
  by (simp only: DeduplicationSeq_twice DuplicateSeq_twice DeduplicationSeq_two DuplicateSeq_two
      DeduplicationSeq_drive DuplicateSeq_drive fst_conv simp_thms)

text \<open>
  Claim C4 (\<^verbatim>\<open>DuplicateSeq\<close>). Collected over a slice \<open>xs\<close>, a new \<^verbatim>\<open>DuplicateSeq\<close> yields the
  elements at the positions of second sightings (the element has occurred exactly once
  before), in ascending order of these positions. So no value is yielded twice, the
  values yielded are those that occur at least twice (a value that occurs once is never
  yielded), and \<open>[1, 2, 3, 1, 4, 2, 5, 1]\<close> gives \<open>[1, 2]\<close>.
\<close>

theorem DuplicateSeq_second_sighting:
  "fst (first_drive (\<lambda>_. True) (DuplicateSeq (slices_Values i xs)) w)
     = map ((!) xs) (second_sightings xs)
   \<and> distinct (fst (first_drive (\<lambda>_. True) (DuplicateSeq (slices_Values i xs)) w))
   \<and> set (fst (first_drive (\<lambda>_. True) (DuplicateSeq (slices_Values i xs)) w))
       = {v. 2 \<le> count_list xs v}
   \<and> fst (first_drive (\<lambda>_. True) (DuplicateSeq (slices_Values i' [1, 2, 3, 1, 4, 2, 5, 1 :: int])) w')
       = [1, 2]"
proof -
  note e = emitted_second_sightings[symmetric]
  have 1: "distinct (map ((!) xs) (second_sightings xs))"
    unfolding e by (rule distinct_emitted_dup)
  have 2: "set (map ((!) xs) (second_sightings xs)) = {v. 2 \<le> count_list xs v}"
    unfolding e set_emitted_dup by simp
  have 3: "map ((!) [1, 2, 3, 1, 4, 2, 5, 1 :: int]) (second_sightings [1, 2, 3, 1, 4, 2, 5, 1 :: int])
           = [1, 2]"
    unfolding e by simp
  show ?thesis
    unfolding DuplicateSeq_drive fst_conv using 1 2 3 by blast
qed

text \<open>
  Claim C5 (\<^verbatim>\<open>SumFuncSeq\<close> fails fast). When \<open>fn\<close> returns no error on any element of the
  slice, \<^verbatim>\<open>SumFuncSeq\<close> returns the sum of the values of \<open>fn\<close>, accumulated from the left
  starting at the zero value, and a nil error, and has consumed the whole slice. When
  \<open>x\<close> is the first element on which \<open>fn\<close> returns an error (none of the elements \<open>us\<close>
  before it does), it returns the zero value and the error of \<open>x\<close>, and the source has
  handed out \<open>us\<close> and \<open>x\<close> and nothing of what follows.
\<close>

theorem SumFuncSeq_fail_fast:
  "((\<forall>x\<in>set xs. snd (fn x) = None) \<longrightarrow>
      SumFuncSeq (slices_Values i xs) fn w
      = ((foldl (+) 0 (map (\<lambda>x. fst (fn x)) xs), None), pull i (length xs) w))
   \<and> ((\<forall>u\<in>set us. snd (fn u) = None) \<and> snd (fn x) = Some e \<longrightarrow>
      SumFuncSeq (slices_Values i (us @ x # vs)) fn w
      = ((0, Some e), pull i (Suc (length us)) w))"
  using SumFuncSeq_ok[of xs fn i w] SumFuncSeq_err[of us fn x e i vs w] by blast

text \<open>The theorem on \<open>[1, 2, 3]\<close> without an error, and on \<open>[1, 0, 3, 0]\<close> where \<open>fn\<close> fails
  on \<open>0\<close>: the first \<open>0\<close> stops the loop after two elements.\<close>

theorem SumFuncSeq_fail_fast_witness:
  "fst (SumFuncSeq (slices_Values 0 [1, 2, 3 :: int]) (\<lambda>v. (v, None :: string option))
      (world0 :: (int, unit) world)) = (6, None)
   \<and> pulled (snd (SumFuncSeq (slices_Values 0 [1, 2, 3 :: int]) (\<lambda>v. (v, None :: string option))
      (world0 :: (int, unit) world))) 0 = 3
   \<and> fst (SumFuncSeq (slices_Values 0 ([1 :: int] @ 0 # [3, 0]))
        (\<lambda>v. if v = 0 then (7, Some ''invalid number'') else (v, None))
        (world0 :: (int, unit) world)) = (0, Some ''invalid number'')
   \<and> pulled (snd (SumFuncSeq (slices_Values 0 ([1 :: int] @ 0 # [3, 0]))
        (\<lambda>v. if v = 0 then (7, Some ''invalid number'') else (v, None))
        (world0 :: (int, unit) world))) 0 = 2"
proof -
  have a: "\<forall>x\<in>set [1, 2, 3 :: int]. snd (x, None :: string option) = None" by simp
  have b: "(\<forall>u\<in>set [1 :: int]. snd (if u = 0 then (7 :: int, Some ''invalid number'') else (u, None)) = None)
           \<and> snd (if (0 :: int) = 0 then (7 :: int, Some ''invalid number'') else (0, None))
               = Some ''invalid number''" by simp
  from SumFuncSeq_fail_fast[where xs = "[1, 2, 3 :: int]" and fn = "\<lambda>v. (v, None :: string option)"
      and i = 0 and w = "world0 :: (int, unit) world", THEN conjunct1, THEN mp, OF a]
    SumFuncSeq_fail_fast[where us = "[1 :: int]" and x = 0 and vs = "[3, 0]"
      and e = "''invalid number''"
      and fn = "\<lambda>v. if v = 0 then (7, Some ''invalid number'') else (v, None)"
      and i = 0 and w = "world0 :: (int, unit) world", THEN conjunct2, THEN mp, OF b]
  show ?thesis by (simp add: world0_def)
qed

text \<open>
  Claim C6 (\<^verbatim>\<open>SumSeq\<close>). Over a slice \<open>xs\<close>, \<^verbatim>\<open>SumSeq\<close> consumes all of \<open>xs\<close> and returns the
  elements of \<open>xs\<close> in ascending order, added up from the left starting at the zero
  value. So two slices with the same elements, in any order, have the same sum, and
  every arrangement of \<open>[3, 1, 2]\<close> sums to 6.
\<close>

theorem SumSeq_sorted_accumulation:
  "SumSeq (slices_Values i xs) w = (foldl (+) 0 (sort xs), pull i (length xs) w)
   \<and> (mset ys = mset xs \<longrightarrow>
        fst (SumSeq (slices_Values j ys) w') = fst (SumSeq (slices_Values i xs) w))
   \<and> (mset zs = mset [3, 1, 2 :: int] \<longrightarrow> fst (SumSeq (slices_Values k zs) w'') = 6)"
proof (intro conjI impI)
  show "SumSeq (slices_Values i xs) w = (foldl (+) 0 (sort xs), pull i (length xs) w)"
    by (rule SumSeq_Values)
next
  assume "mset ys = mset xs"
  then have "sort ys = sort xs" by (rule sort_mset_eq)
  then show "fst (SumSeq (slices_Values j ys) w') = fst (SumSeq (slices_Values i xs) w)"
    by (simp add: SumSeq_Values)
next
  assume "mset zs = mset [3, 1, 2 :: int]"
  then have "sort zs = sort [3, 1, 2]" by (rule sort_mset_eq)
  then show "fst (SumSeq (slices_Values k zs) w'') = 6"
    by (simp add: SumSeq_Values)
qed

text \<open>The theorem on three arrangements of \<open>[3, 1, 2]\<close>.\<close>

theorem SumSeq_sorted_accumulation_witness:
  "fst (SumSeq (slices_Values 0 [3, 1, 2 :: int]) (world0 :: (int, unit) world)) = 6
   \<and> pulled (snd (SumSeq (slices_Values 0 [3, 1, 2 :: int]) (world0 :: (int, unit) world))) 0 = 3
   \<and> fst (SumSeq (slices_Values 1 [2, 3, 1 :: int]) (world0 :: (int, unit) world))
     = fst (SumSeq (slices_Values 0 [3, 1, 2 :: int]) (world0 :: (int, unit) world))
   \<and> fst (SumSeq (slices_Values 2 [1, 2, 3 :: int]) (world0 :: (int, unit) world)) = 6"
proof -
  have a: "mset [2, 3, 1 :: int] = mset [3, 1, 2]" by simp
  have b: "mset [1, 2, 3 :: int] = mset [3, 1, 2]" by simp
  note t = SumSeq_sorted_accumulation[where xs = "[3, 1, 2 :: int]" and ys = "[2, 3, 1]"
      and zs = "[1, 2, 3]" and i = 0 and j = 1 and k = 2
      and w = "world0 :: (int, unit) world" and w' = "world0 :: (int, unit) world"
      and w'' = "world0 :: (int, unit) world"]
  from t[THEN conjunct1] t[THEN conjunct2, THEN conjunct1, THEN mp, OF a]
    t[THEN conjunct2, THEN conjunct2, THEN mp, OF b]
  show ?thesis by (simp add: world0_def)
qed

text \<open>
  Claim C7 (\<^verbatim>\<open>RemoveSeq\<close>). With a slice \<open>ys\<close> as the restartable exclude sequence,
  \<^verbatim>\<open>RemoveSeq\<close> collected over \<open>xs\<close> yields, in the order of \<open>xs\<close>, the elements of \<open>xs\<close> that
  are equal to no element of \<open>ys\<close>: \<open>[1, 2, 3, 4, 5]\<close> without \<open>[2, 4]\<close> is \<open>[1, 3, 5]\<close>, and
  an empty \<open>ys\<close> leaves \<open>xs\<close> as it is.
\<close>

theorem RemoveSeq_membership:
  "fst (first_drive (\<lambda>_. True) (RemoveSeq (slices_Values i xs) (slices_Values j ys)) w)
     = filter (\<lambda>x. x \<notin> set ys) xs
   \<and> fst (first_drive (\<lambda>_. True)
          (RemoveSeq (slices_Values i [1, 2, 3, 4, 5 :: int]) (slices_Values j [2, 4])) w')
       = [1, 3, 5]
   \<and> fst (first_drive (\<lambda>_. True) (RemoveSeq (slices_Values i xs) (slices_Values j [])) w) = xs"
  by (simp add: RemoveSeq_collect)

text \<open>
  Claim C8 (deduplication is idempotent). A \<^verbatim>\<open>DeduplicationSeq\<close> built on a
  \<^verbatim>\<open>DeduplicationSeq\<close> over \<open>xs\<close> collects to what one \<^verbatim>\<open>DeduplicationSeq\<close> over \<open>xs\<close> collects
  to, and so does a \<^verbatim>\<open>DeduplicationSeq\<close> over the collected result. That result is the
  elements at the positions of first sightings, in ascending order: no value twice, and
  every value of \<open>xs\<close>.
\<close>

theorem DeduplicationSeq_idempotent:
  "fst (first_drive (\<lambda>_. True)
          (piped (DeduplicationSeq (slices_Values i xs)) DeduplicationSeq) w)
     = fst (first_drive (\<lambda>_. True) (DeduplicationSeq (slices_Values i xs)) w)
   \<and> fst (first_drive (\<lambda>_. True) (DeduplicationSeq (slices_Values j
          (fst (first_drive (\<lambda>_. True) (DeduplicationSeq (slices_Values i xs)) w)))) w')
       = fst (first_drive (\<lambda>_. True) (DeduplicationSeq (slices_Values i xs)) w)
   \<and> fst (first_drive (\<lambda>_. True) (DeduplicationSeq (slices_Values i xs)) w)
       = map ((!) xs) (first_sightings xs)
   \<and> distinct (fst (first_drive (\<lambda>_. True) (DeduplicationSeq (slices_Values i xs)) w))
   \<and> set (fst (first_drive (\<lambda>_. True) (DeduplicationSeq (slices_Values i xs)) w)) = set xs"
proof -
  note e = emitted_first_sightings[symmetric]
  have 1: "distinct (map ((!) xs) (first_sightings xs))"
    unfolding e by (rule distinct_emitted_dedup)
  have 2: "set (map ((!) xs) (first_sightings xs)) = set xs"
    unfolding e set_emitted_dedup by simp
  have 3: "map ((!) (map ((!) xs) (first_sightings xs))) (first_sightings (map ((!) xs) (first_sightings xs)))
           = map ((!) xs) (first_sightings xs)"
    using 1 unfolding e by (simp add: emitted_dedup_distinct)
  show ?thesis
    unfolding DeduplicationSeq_piped DeduplicationSeq_drive fst_conv using 1 2 3 by blast
qed

text \<open>
  Claim C9 (order preservation). Collected over a slice \<open>xs\<close>, \<^verbatim>\<open>FilterSeq\<close>,
  \<^verbatim>\<open>PatternSeq\<close> and \<^verbatim>\<open>StringPatternSeq\<close> yield the elements of \<open>xs\<close> that pass, in the
  order of \<open>xs\<close>: a subsequence of \<open>xs\<close>, with at most as many elements. \<^verbatim>\<open>ReplaceFuncSeq\<close>,
  \<^verbatim>\<open>ReplaceSeq\<close>, \<^verbatim>\<open>ConvertSeq\<close> and \<^verbatim>\<open>AnySeq\<close> yield the image of every element, in the
  order of \<open>xs\<close>, so as many elements as \<open>xs\<close> has.
\<close>

theorem order_preservation:
  "fst (first_drive (\<lambda>_. True) (FilterSeq (slices_Values i xs) fn) w) = filter fn xs
   \<and> fst (first_drive (\<lambda>_. True) (PatternSeq T (slices_Values i xs) pattern) w)
       = filter (\<lambda>v. pattern (text_of T v)) xs
   \<and> fst (first_drive (\<lambda>_. True) (StringPatternSeq T (slices_Values i xs) literal) w)
       = filter (\<lambda>v. text_of T v = literal) xs
   \<and> subseq (fst (first_drive (\<lambda>_. True) (FilterSeq (slices_Values i xs) fn) w)) xs
   \<and> subseq (fst (first_drive (\<lambda>_. True) (PatternSeq T (slices_Values i xs) pattern) w)) xs
   \<and> subseq (fst (first_drive (\<lambda>_. True) (StringPatternSeq T (slices_Values i xs) literal) w)) xs
   \<and> length (fst (first_drive (\<lambda>_. True) (FilterSeq (slices_Values i xs) fn) w)) \<le> length xs
   \<and> length (fst (first_drive (\<lambda>_. True) (PatternSeq T (slices_Values i xs) pattern) w)) \<le> length xs
   \<and> length (fst (first_drive (\<lambda>_. True) (StringPatternSeq T (slices_Values i xs) literal) w))
       \<le> length xs
   \<and> fst (first_drive (\<lambda>_. True) (ReplaceFuncSeq (slices_Values i xs) rf) w) = map rf xs
   \<and> fst (first_drive (\<lambda>_. True) (ReplaceSeq (slices_Values i xs) g) w)
       = map (\<lambda>v. case g v of Some r \<Rightarrow> r | None \<Rightarrow> v) xs
   \<and> fst (first_drive (\<lambda>_. True) (ConvertSeq (slices_Values i xs) cf) w) = map cf xs
   \<and> fst (first_drive (\<lambda>_. True) (AnySeq (slices_Values i xs)) w) = map Any xs
   \<and> length (fst (first_drive (\<lambda>_. True) (ReplaceFuncSeq (slices_Values i xs) rf) w)) = length xs
   \<and> length (fst (first_drive (\<lambda>_. True) (ReplaceSeq (slices_Values i xs) g) w)) = length xs
   \<and> length (fst (first_drive (\<lambda>_. True) (ConvertSeq (slices_Values i xs) cf) w)) = length xs
   \<and> length (fst (first_drive (\<lambda>_. True) (AnySeq (slices_Values i xs)) w)) = length xs"
  unfolding FilterSeq_collect PatternSeq_collect StringPatternSeq_collect ReplaceFuncSeq_collect
    ReplaceSeq_collect ConvertSeq_collect AnySeq_collect
  by (simp add: replaced_def[abs_def])

text \<open>
  Claim C10 (empty source). On a source that yields nothing, \<^verbatim>\<open>CountSeq\<close> returns 0,
  \<^verbatim>\<open>IsEmptySeq\<close> returns true, \<^verbatim>\<open>SumSeq\<close> returns the zero value and \<^verbatim>\<open>SumFuncSeq\<close> returns
  the zero value with a nil error; the state of the run is left as it was.
\<close>

theorem empty_source_neutral:
  "CountSeq (slices_Values i []) w = (0, w)
   \<and> IsEmptySeq (slices_Values i []) w = (True, w)
   \<and> SumSeq (slices_Values i []) w = (0, w)
   \<and> SumFuncSeq (slices_Values i []) fn w = ((0, None), w)"
  by (simp add: CountSeq_def IsEmptySeq_def SumSeq_def SumFuncSeq_def slices_Collect_def
      observe_def)

end
